theory Spec2Isabelle
  imports Main "HOL-Library.Word"
begin

section \<open>Bytes, text and decoding\<close>

text \<open>
  A line read from the stream is a Python \<open>bytes\<close> object; \<open>line.decode()\<close> turns it
  into a \<open>str\<close>, a sequence of Unicode code points, with the strict UTF-8 codec. A
  malformed line makes \<open>decode\<close> raise \<open>UnicodeDecodeError\<close>, which is a subclass of
  \<open>ValueError\<close>; here that is the value \<open>None\<close>.
\<close>

type_synonym byte = "8 word"
type_synonym bytes = "byte list"
type_synonym pystr = "nat list"

definition cont :: "byte \<Rightarrow> bool" where
  "cont c = (0x80 \<le> unat c \<and> unat c \<le> 0xBF)"

definition between :: "nat \<Rightarrow> byte \<Rightarrow> nat \<Rightarrow> bool" where
  "between lo c hi = (lo \<le> unat c \<and> unat c \<le> hi)"

definition low6 :: "byte \<Rightarrow> nat" where
  "low6 c = unat c - 0x80"

fun decode :: "bytes \<Rightarrow> pystr option" where
  "decode [] = Some []"
| "decode (b # bs) =
     (if unat b < 0x80 then map_option ((#) (unat b)) (decode bs)
      else if between 0xC2 b 0xDF then
        (case bs of
           c1 # r \<Rightarrow>
             if cont c1
             then map_option ((#) ((unat b - 0xC0) * 64 + low6 c1)) (decode r)
             else None
         | _ \<Rightarrow> None)
      else if between 0xE0 b 0xEF then
        (case bs of
           c1 # c2 # r \<Rightarrow>
             if between (if unat b = 0xE0 then 0xA0 else 0x80) c1
                        (if unat b = 0xED then 0x9F else 0xBF) \<and> cont c2
             then map_option
                    ((#) ((unat b - 0xE0) * 4096 + low6 c1 * 64 + low6 c2)) (decode r)
             else None
         | _ \<Rightarrow> None)
      else if between 0xF0 b 0xF4 then
        (case bs of
           c1 # c2 # c3 # r \<Rightarrow>
             if between (if unat b = 0xF0 then 0x90 else 0x80) c1
                        (if unat b = 0xF4 then 0x8F else 0xBF) \<and> cont c2 \<and> cont c3
             then map_option
                    ((#) ((unat b - 0xF0) * 262144 + low6 c1 * 4096 + low6 c2 * 64 + low6 c3))
                    (decode r)
             else None
         | _ \<Rightarrow> None)
      else None)"

text \<open>The built-in \<open>print(s)\<close> writes \<open>s\<close> followed by a newline (code point 10).\<close>

definition newline :: nat where
  "newline = 10"

definition str :: "string \<Rightarrow> pystr" where
  "str s = map of_char s"

section \<open>The monitored stream\<close>

text \<open>
  The stream is the caller's object; the worker uses \<open>stream.readline()\<close>,
  \<open>stream.closed\<close> and \<open>isinstance(stream, BinaryIO)\<close> only. A stream is modelled by
  what it will answer: \<open>script\<close> lists the outcomes of the coming \<open>readline\<close> calls,
  each with the value \<open>closed\<close> has once that call is over (the owner of the stream may
  close it at any moment). Once the script is used up, \<open>readline\<close> returns \<open>b""\<close> again
  and again, as a pipe at end of file does, and \<open>closed\<close> stays as it is.
\<close>

datatype read_result = Returns bytes | Raises_ValueError | Raises_other

record stream =
  is_BinaryIO :: bool
  closed :: bool
  script :: "(read_result \<times> bool) list"

fun readline :: "stream \<Rightarrow> read_result \<times> stream" where
  "readline s =
     (case script s of
        [] \<Rightarrow> (Returns [], s)
      | (r, c) # rest \<Rightarrow> (r, s\<lparr>closed := c, script := rest\<rparr>))"

section \<open>The Streamer instance and its workers\<close>

datatype message =
    Output_thread_is_none
  | Streamer_closed_early
  | Finished
  | Already_monitoring
  | Stream_none
  | Stop_but_not_monitoring

fun messages :: "message \<Rightarrow> pystr" where
  "messages Output_thread_is_none =
     [newline] @ str ''            Streamer :: Nothing is being monitored.'' @
     [newline] @ str ''            Pass a stream to be monitored to the Streamer constructor or to the monitor instance method'' @
     [newline] @ str ''            ''"
| "messages Streamer_closed_early = str ''Streamer :: The stream closed while being read from''"
| "messages Finished = str ''Streamer :: done''"
| "messages Already_monitoring = str ''Streamer :: Already monitoring''"
| "messages Stream_none = str ''Streamer :: The given stream to monitor is None''"
| "messages Stop_but_not_monitoring = str ''Streamer :: stop called but not monitoring''"

text \<open>
  One activation of \<open>__flush(stream)\<close>: its argument, the program point it is at, and
  how many times it has run \<open>time.sleep(0)\<close>. \<open>Burst n\<close> is the inner \<open>for\<close> loop with
  the local \<open>buffer_size = n\<close>, about to call \<open>readline\<close>. \<open>Crashed\<close> is an exception
  that left the function.
\<close>

datatype pc = Entry | LoopHead | Burst nat | Cleanup | Done | Crashed

record activation =
  target :: "stream option"
  pc :: pc
  yields :: nat

text \<open>A \<open>Thread\<close> object that has been started: the activation it runs and its \<open>daemon\<close> flag.\<close>

record thread = activation +
  daemon :: bool

text \<open>
  The instance fields \<open>_output_thread\<close>, \<open>_exit\<close> and \<open>verbose\<close>, every \<open>Thread\<close>
  object the instance has created (a handle is an index in \<open>threads\<close>), and what has
  been written to standard output, one entry for each \<open>print\<close> call. An \<open>Event\<close> is
  its flag. \<open>stdout_encodes\<close> is the encoding of \<open>sys.stdout\<close>: the code points beyond
  ASCII that it represents. Every encoding a standard output has represents ASCII, in
  which the diagnostics are written.
\<close>

record world =
  stdout_encodes :: "nat \<Rightarrow> bool"
  output_thread :: "nat option"
  exit :: "bool option"
  verbose :: bool
  threads :: "thread list"
  stdout :: "pystr list"

datatype error = AttributeError | Uncaught_exception

datatype pyval = PNone | PBool bool

fun truthy :: "pyval \<Rightarrow> bool" where
  "truthy PNone = False"
| "truthy (PBool b) = b"

text \<open>
  \<open>print(s)\<close> encodes \<open>s\<close> before it writes: on a code point that the encoding of
  \<open>sys.stdout\<close> does not represent it raises \<open>UnicodeEncodeError\<close>, a subclass of
  \<open>ValueError\<close>, and has written nothing. \<open>sink_accepts\<close> is the case where it does
  not raise, and \<open>builtin_print\<close> what it writes then.
\<close>

definition sink_accepts :: "world \<Rightarrow> pystr \<Rightarrow> bool" where
  "sink_accepts w s = list_all (\<lambda>c. c < 0x80 \<or> stdout_encodes w c) s"

definition utf_8_codec :: "nat \<Rightarrow> bool" where
  "utf_8_codec c = (c < 0x110000 \<and> \<not> (0xD800 \<le> c \<and> c \<le> 0xDFFF))"

definition ascii_codec :: "nat \<Rightarrow> bool" where
  "ascii_codec c = (c < 0x80)"

definition builtin_print :: "pystr \<Rightarrow> world \<Rightarrow> world" where
  "builtin_print s w = w\<lparr>stdout := stdout w @ [s @ [newline]]\<rparr>"

definition print :: "message \<Rightarrow> world \<Rightarrow> world" where
  "print m w = (if verbose w then builtin_print (messages m) w else w)"

definition cleanup :: "world \<Rightarrow> world" where
  "cleanup w = print Finished w"

definition running :: "pc \<Rightarrow> bool" where
  "running p = (p \<noteq> Done \<and> p \<noteq> Crashed)"

definition is_alive :: "world \<Rightarrow> nat \<Rightarrow> bool" where
  "is_alive w t = (t < length (threads w) \<and> running (pc (threads w ! t)))"

definition loop_condition :: "world \<Rightarrow> stream option \<Rightarrow> bool" where
  "loop_condition w so =
     (case exit w of
        None \<Rightarrow> False
      | Some e \<Rightarrow>
          \<not> e \<and> (case so of None \<Rightarrow> False | Some s \<Rightarrow> is_BinaryIO s \<and> \<not> closed s))"

text \<open>
  One atomic step of an activation of \<open>__flush\<close>: the guard on \<open>_output_thread\<close>, one
  evaluation of the \<open>while\<close> condition, one pass of the \<open>for\<close> loop (a \<open>readline\<close> call
  and what follows it) or the cleanup. It returns the activation and the world.
\<close>

fun flush_step :: "'a activation_scheme \<Rightarrow> world \<Rightarrow> 'a activation_scheme \<times> world" where
  "flush_step th w =
     (case pc th of
        Entry \<Rightarrow>
          if output_thread w = None
          then (th\<lparr>pc := Cleanup\<rparr>, print Output_thread_is_none w)
          else (th\<lparr>pc := LoopHead\<rparr>, w)
      | LoopHead \<Rightarrow>
          if loop_condition w (target th)
          then (th\<lparr>pc := Burst 0\<rparr>, w)
          else (th\<lparr>pc := Cleanup\<rparr>, w)
      | Burst buffer_size \<Rightarrow>
          (case target th of
             None \<Rightarrow> (th\<lparr>pc := Crashed\<rparr>, w)
           | Some s \<Rightarrow>
               (case readline s of
                  (Raises_other, s') \<Rightarrow> (th\<lparr>target := Some s', pc := Crashed\<rparr>, w)
                | (Raises_ValueError, s') \<Rightarrow>
                    (th\<lparr>target := Some s', pc := Cleanup\<rparr>, print Streamer_closed_early w)
                | (Returns line, s') \<Rightarrow>
                    if line = [] then (th\<lparr>target := Some s', pc := LoopHead\<rparr>, w)
                    else
                      (case decode line of
                         None \<Rightarrow>
                           (th\<lparr>target := Some s', pc := Cleanup\<rparr>,
                            print Streamer_closed_early w)
                       | Some txt \<Rightarrow>
                           if \<not> sink_accepts w txt
                           then (th\<lparr>target := Some s', pc := Cleanup\<rparr>,
                                 print Streamer_closed_early w)
                           else
                             (th\<lparr>target := Some s',
                                 yields := (if buffer_size mod 10 = 0 then yields th + 1
                                            else yields th)\<rparr>,
                              builtin_print txt w))))
      | Cleanup \<Rightarrow> (th\<lparr>pc := Done\<rparr>, cleanup w)
      | Done \<Rightarrow> (th, w)
      | Crashed \<Rightarrow> (th, w))"

text \<open>A step of the worker with handle \<open>t\<close>; a thread that has ended does nothing more.\<close>

definition worker_step :: "nat \<Rightarrow> world \<Rightarrow> world" where
  "worker_step t w =
     (if t < length (threads w)
      then (case flush_step (threads w ! t) w of
              (th', w') \<Rightarrow> w'\<lparr>threads := (threads w')[t := th']\<rparr>)
      else w)"

text \<open>
  \<open>Thread.join()\<close> returns once the thread has ended; the caller is blocked meanwhile,
  so the worker alone moves. \<open>None\<close> is a \<open>join\<close> that never returns.
\<close>

partial_function (option) join :: "nat \<Rightarrow> world \<Rightarrow> world option" where
  "join t w = (if is_alive w t then join t (worker_step t w) else Some w)"

text \<open>
  \<open>__flush\<close> called directly, as the tests do through \<open>_Streamer__flush\<close>: the
  activation runs in the caller, and an exception that leaves it reaches the caller.
\<close>

partial_function (option) flush_run :: "activation \<Rightarrow> world \<Rightarrow> (activation \<times> world) option" where
  "flush_run a w =
     (if running (pc a) then flush_run (fst (flush_step a w)) (snd (flush_step a w))
      else Some (a, w))"

definition flush :: "stream option \<Rightarrow> world \<Rightarrow> (error + world) option" where
  "flush so w =
     map_option (\<lambda>(a, w'). if pc a = Crashed then Inl Uncaught_exception else Inr w')
       (flush_run \<lparr>target = so, pc = Entry, yields = 0\<rparr> w)"

subsection \<open>The public operations\<close>

definition is_monitoring :: "world \<Rightarrow> error + pyval" where
  "is_monitoring w =
     (case output_thread w of
        None \<Rightarrow> Inr PNone
      | Some t \<Rightarrow>
          if \<not> is_alive w t then Inr (PBool False)
          else (case exit w of
                  None \<Rightarrow> Inl AttributeError
                | Some e \<Rightarrow> Inr (PBool (\<not> e))))"

definition monitor :: "stream option \<Rightarrow> world \<Rightarrow> error + world" where
  "monitor so w =
     (case is_monitoring w of
        Inl e \<Rightarrow> Inl e
      | Inr v \<Rightarrow>
          if truthy v then Inr (print Already_monitoring w)
          else (case so of
                  None \<Rightarrow> Inr (print Stream_none w)
                | Some s \<Rightarrow>
                    Inr (w\<lparr>exit := Some False,
                           output_thread := Some (length (threads w)),
                           threads := threads w @
                             [\<lparr>target = Some s, pc = Entry, yields = 0, daemon = True\<rparr>]\<rparr>)))"

definition stop :: "world \<Rightarrow> (error + world) option" where
  "stop w =
     (case is_monitoring w of
        Inl e \<Rightarrow> Some (Inl e)
      | Inr v \<Rightarrow>
          if \<not> truthy v then Some (Inr (print Stop_but_not_monitoring w))
          else (case output_thread w of
                  None \<Rightarrow> Some (Inl AttributeError)
                | Some t \<Rightarrow> map_option Inr (join t (w\<lparr>exit := Some True\<rparr>))))"

text \<open>
  The constructor; \<open>enc\<close> is the encoding of the standard output of the process in
  which the instance is created.
\<close>

definition Streamer :: "(nat \<Rightarrow> bool) \<Rightarrow> stream option \<Rightarrow> bool \<Rightarrow> error + world" where
  "Streamer enc so v =
     (let w = \<lparr>stdout_encodes = enc, output_thread = None, exit = None, verbose = v,
                threads = [], stdout = []\<rparr>
      in case so of None \<Rightarrow> Inr w | Some s \<Rightarrow> monitor (Some s) w)"

subsection \<open>Histories of an instance\<close>

text \<open>
  What happens to an instance after its construction: calls of \<open>monitor\<close> and
  \<open>stop\<close> by its owner, and steps of its workers in between, as the scheduler grants
  them. \<open>None\<close> is a call that raised or never returned.
\<close>

datatype op = Monitor "stream option" | Stop | Worker nat

fun apply_op :: "op \<Rightarrow> world \<Rightarrow> world option" where
  "apply_op (Monitor so) w = (case monitor so w of Inl e \<Rightarrow> None | Inr w' \<Rightarrow> Some w')"
| "apply_op Stop w = (case stop w of Some (Inr w') \<Rightarrow> Some w' | _ \<Rightarrow> None)"
| "apply_op (Worker t) w = Some (worker_step t w)"

fun run_ops :: "op list \<Rightarrow> world \<Rightarrow> world option" where
  "run_ops [] w = Some w"
| "run_ops (x # xs) w = (case apply_op x w of None \<Rightarrow> None | Some w' \<Rightarrow> run_ops xs w')"

text \<open>
  What holds of an instance between two calls: the handle is the thread created last,
  every earlier thread has ended, the exit signal exists once a thread does, and it is
  unset while the thread of the handle runs.
\<close>

definition wf :: "world \<Rightarrow> bool" where
  "wf w =
     (case output_thread w of
        None \<Rightarrow> threads w = []
      | Some t \<Rightarrow>
          Suc t = length (threads w) \<and>
          list_all (\<lambda>th. \<not> running (pc th)) (butlast (threads w)) \<and>
          exit w \<noteq> None \<and>
          (running (pc (last (threads w))) \<longrightarrow> exit w = Some False))"

text \<open>
  A bound on the steps a worker still takes once the exit signal is set: the burst it
  is in ends with the script at the latest, and the \<open>while\<close> condition then fails.
\<close>

definition steps_left :: "world \<Rightarrow> nat \<Rightarrow> nat" where
  "steps_left w t =
     (if t < length (threads w)
      then (case pc (threads w ! t) of
              Entry \<Rightarrow> 3
            | LoopHead \<Rightarrow> 2
            | Burst n \<Rightarrow>
                3 + (case target (threads w ! t) of None \<Rightarrow> 0 | Some s \<Rightarrow> length (script s))
            | Cleanup \<Rightarrow> 1
            | Done \<Rightarrow> 0
            | Crashed \<Rightarrow> 0)
      else 0)"

declare join.simps [code]
declare flush_run.simps [code]

section \<open>Steps of a worker\<close>

text \<open>
  What a step leaves alone, the step taken at each program point, and the worker's way
  through a burst of lines.
\<close>

lemmas print_defs = print_def builtin_print_def cleanup_def
declare flush_step.simps [simp del]

lemma sink_accepts_simps [simp]:
  "sink_accepts w [] = True"
  "sink_accepts w (c # cs) = ((c < 0x80 \<or> stdout_encodes w c) \<and> sink_accepts w cs)"
  "sink_accepts (w\<lparr>stdout := x\<rparr>) u = sink_accepts w u"
  "sink_accepts (w\<lparr>threads := y\<rparr>) u = sink_accepts w u"
  "sink_accepts (w\<lparr>exit := e\<rparr>) u = sink_accepts w u"
  "sink_accepts (w\<lparr>output_thread := h\<rparr>) u = sink_accepts w u"
  by (simp_all add: sink_accepts_def)

lemma flush_step_frame:
  assumes "flush_step a w = (a', w')"
  shows "output_thread w' = output_thread w" "exit w' = exit w" "verbose w' = verbose w"
    "threads w' = threads w" "\<exists>xs. stdout w' = stdout w @ xs"
    "stdout_encodes w' = stdout_encodes w"
  using assms
  by (auto simp: flush_step.simps print_defs split: pc.splits option.splits read_result.splits prod.splits
      list.splits if_splits)

lemma flush_step_ended:
  "\<not> running (pc a) \<Longrightarrow> flush_step a w = (a, w)"
  by (auto simp: flush_step.simps running_def split: pc.splits)

lemma worker_step_frame:
  "output_thread (worker_step t w) = output_thread w"
  "exit (worker_step t w) = exit w"
  "verbose (worker_step t w) = verbose w"
  "length (threads (worker_step t w)) = length (threads w)"
  "i \<noteq> t \<Longrightarrow> threads (worker_step t w) ! i = threads w ! i"
  "\<exists>xs. stdout (worker_step t w) = stdout w @ xs"
  by (auto simp: worker_step_def split: prod.splits dest: flush_step_frame)

lemma worker_step_ended:
  "\<not> is_alive w t \<Longrightarrow> worker_step t w = w"
  by (auto simp: worker_step_def is_alive_def flush_step_ended)

lemma join_unfold:
  "is_alive w t \<Longrightarrow> join t w = join t (worker_step t w)"
  "\<not> is_alive w t \<Longrightarrow> join t w = Some w"
  by (subst join.simps, simp)+

lemma join_result:
  assumes "join t w = Some w'"
  shows "\<not> is_alive w' t \<and> output_thread w' = output_thread w \<and> exit w' = exit w \<and>
    verbose w' = verbose w \<and> length (threads w') = length (threads w) \<and>
    (\<forall>i. i \<noteq> t \<longrightarrow> threads w' ! i = threads w ! i) \<and> (\<exists>xs. stdout w' = stdout w @ xs)"
  using assms
proof (induction t w w' rule: join.raw_induct [rotated 1, consumes 1])
  case (1 f t w w')
  show ?case
  proof (cases "is_alive w t")
    case True
    with 1(2) have "f t (worker_step t w) = Some w'" by simp
    from 1(1) [OF this] obtain xs where
      r: "\<not> is_alive w' t" "output_thread w' = output_thread w" "exit w' = exit w"
        "verbose w' = verbose w" "length (threads w') = length (threads w)"
        "\<forall>i. i \<noteq> t \<longrightarrow> threads w' ! i = threads w ! i"
        "stdout w' = stdout (worker_step t w) @ xs"
      by (auto simp: worker_step_frame)
    obtain ys where "stdout (worker_step t w) = stdout w @ ys"
      using worker_step_frame(6) [of t w] by blast
    with r(7) have "stdout w' = stdout w @ (ys @ xs)" by simp
    with r show ?thesis by blast
  next
    case False
    with 1(2) show ?thesis by simp
  qed
qed


lemma worker_step_at:
  "t < length (threads w) \<Longrightarrow> flush_step (threads w ! t) w = (th', w') \<Longrightarrow>
   worker_step t w = w'\<lparr>threads := (threads w)[t := th']\<rparr>"
  by (auto simp: worker_step_def dest: flush_step_frame(4))

lemma step_line:
  assumes "t < length (threads w)" "pc (threads w ! t) = Burst 0"
    "target (threads w ! t) = Some s" "script s = (Returns l, c) # rest" "l \<noteq> []"
    "decode l = Some u" "sink_accepts w u"
  shows "worker_step t w =
    w\<lparr>threads := (threads w)[t := (threads w ! t)
          \<lparr>target := Some (s\<lparr>closed := c, script := rest\<rparr>),
             yields := yields (threads w ! t) + 1\<rparr>],
      stdout := stdout w @ [u @ [newline]]\<rparr>"
  using assms by (simp add: worker_step_def flush_step.simps builtin_print_def)

lemma activation_update_order [simp]:
  "a\<lparr>pc := p, target := x\<rparr> = a\<lparr>target := x, pc := p\<rparr>"
  "a\<lparr>yields := y, target := x\<rparr> = a\<lparr>target := x, yields := y\<rparr>"
  "a\<lparr>yields := y, pc := p\<rparr> = a\<lparr>pc := p, yields := y\<rparr>"
  for a :: "'a activation_scheme"
  by (cases a; simp)+

lemmas run_defs = Streamer_def monitor_def is_monitoring_def join.simps is_alive_def running_def
  worker_step_def flush_step.simps loop_condition_def print_def builtin_print_def cleanup_def

lemma step_entry:
  assumes "t < length (threads w)" "pc (threads w ! t) = Entry" "output_thread w \<noteq> None"
  shows "worker_step t w = w\<lparr>threads := (threads w)[t := (threads w ! t)\<lparr>pc := LoopHead\<rparr>]\<rparr>"
  using assms by (auto simp add: worker_step_def flush_step.simps)

lemma step_loophead:
  assumes "t < length (threads w)" "pc (threads w ! t) = LoopHead"
  shows "worker_step t w = w\<lparr>threads := (threads w)[t := (threads w ! t)
    \<lparr>pc := (if loop_condition w (target (threads w ! t)) then Burst 0 else Cleanup)\<rparr>]\<rparr>"
  using assms by (simp add: worker_step_def flush_step.simps)

lemma step_eof:
  assumes "t < length (threads w)" "pc (threads w ! t) = Burst n"
    "target (threads w ! t) = Some s" "readline s = (Returns [], s')"
  shows "worker_step t w = w\<lparr>threads := (threads w)[t := (threads w ! t)
    \<lparr>target := Some s', pc := LoopHead\<rparr>]\<rparr>"
  using assms by (simp add: worker_step_def flush_step.simps del: readline.simps)

lemma step_ValueError:
  assumes "t < length (threads w)" "pc (threads w ! t) = Burst n"
    "target (threads w ! t) = Some s" "readline s = (Raises_ValueError, s')"
  shows "worker_step t w = (print Streamer_closed_early w)\<lparr>threads := (threads w)[t := (threads w ! t)
    \<lparr>target := Some s', pc := Cleanup\<rparr>]\<rparr>"
  using assms by (simp add: worker_step_def flush_step.simps print_defs del: readline.simps)

lemma step_cleanup:
  assumes "t < length (threads w)" "pc (threads w ! t) = Cleanup"
  shows "worker_step t w = (cleanup w)\<lparr>threads := (threads w)[t := (threads w ! t)\<lparr>pc := Done\<rparr>]\<rparr>"
  using assms by (simp add: worker_step_def flush_step.simps print_defs)

lemma join_cleanup:
  assumes "t < length (threads w)" "pc (threads w ! t) = Cleanup"
  shows "join t w = Some ((cleanup w)\<lparr>threads := (threads w)[t := (threads w ! t)\<lparr>pc := Done\<rparr>]\<rparr>)"
proof -
  have "is_alive w t" using assms by (simp add: is_alive_def running_def)
  then have "join t w = join t (worker_step t w)" by (rule join_unfold)
  also have "\<dots> = Some (worker_step t w)"
    by (rule join_unfold(2)) (use assms in \<open>simp add: step_cleanup is_alive_def running_def print_defs\<close>)
  finally show ?thesis using assms by (simp add: step_cleanup)
qed

lemma join_loophead_exit:
  assumes "t < length (threads w)" "pc (threads w ! t) = LoopHead"
    "\<not> loop_condition w (target (threads w ! t))"
  shows "join t w = Some ((cleanup w)\<lparr>threads := (threads w)[t := (threads w ! t)\<lparr>pc := Done\<rparr>]\<rparr>)"
proof -
  let ?w = "w\<lparr>threads := (threads w)[t := (threads w ! t)\<lparr>pc := Cleanup\<rparr>]\<rparr>"
  have "is_alive w t" using assms by (simp add: is_alive_def running_def)
  then have "join t w = join t (worker_step t w)" by (rule join_unfold)
  also have "worker_step t w = ?w" using assms by (simp add: step_loophead)
  also have "join t ?w = Some ((cleanup ?w)\<lparr>threads := (threads ?w)[t := (threads ?w ! t)\<lparr>pc := Done\<rparr>]\<rparr>)"
    by (rule join_cleanup) (use assms in simp_all)
  finally show ?thesis using assms by (simp add: print_defs)
qed

text \<open>
  The worker's way through a stream: the lines of a burst, the empty reads of a stream
  that stays open, and the read on which it leaves the loop.
\<close>

lemma world_update_order [simp]:
  "w\<lparr>stdout := x, threads := y\<rparr> = w\<lparr>threads := y, stdout := x\<rparr>"
  for w :: world
  by (cases w) simp

lemma burst_lines:
  assumes "t < length (threads w)" "pc (threads w ! t) = Burst 0"
    "target (threads w ! t) = Some s" "script s = map (\<lambda>(l, c). (Returns l, c)) lcs @ rest"
    "\<forall>(l, c)\<in>set lcs. l \<noteq> [] \<and> (\<exists>u. decode l = Some u \<and> sink_accepts w u)"
  shows "join t w = join t
    (w\<lparr>threads := (threads w)[t := (threads w ! t)
          \<lparr>target := Some (s\<lparr>closed := last (closed s # map snd lcs), script := rest\<rparr>),
             yields := yields (threads w ! t) + length lcs\<rparr>],
      stdout := stdout w @ map (\<lambda>(l, c). the (decode l) @ [newline]) lcs\<rparr>)"
  using assms
proof (induction lcs arbitrary: w s)
  case Nil
  then have "s\<lparr>closed := closed s, script := rest\<rparr> = s" by simp
  moreover have "(threads w ! t)\<lparr>target := Some s\<rparr> = threads w ! t"
    using Nil.prems(3) by (metis activation.surjective activation.update_convs(1))
  ultimately show ?case by simp
next
  case (Cons lc lcs)
  obtain l c where lc: "lc = (l, c)" by (cases lc)
  obtain u where dl: "decode l = Some u" "sink_accepts w u" using Cons.prems(5) lc by auto
  let ?s = "s\<lparr>closed := c, script := map (\<lambda>(l, c). (Returns l, c)) lcs @ rest\<rparr>"
  let ?w = "w\<lparr>threads := (threads w)[t := (threads w ! t)
          \<lparr>target := Some ?s, yields := yields (threads w ! t) + 1\<rparr>],
      stdout := stdout w @ [u @ [newline]]\<rparr>"
  have alive: "is_alive w t" using Cons.prems by (simp add: is_alive_def running_def)
  have "worker_step t w = ?w"
    using step_line [OF Cons.prems(1-3), of l c "map (\<lambda>(l, c). (Returns l, c)) lcs @ rest" u]
      Cons.prems lc dl by simp
  then have "join t w = join t ?w" using join_unfold(1) [OF alive] by simp
  also have "\<dots> = join t
    (?w\<lparr>threads := (threads ?w)[t := (threads ?w ! t)
          \<lparr>target := Some (?s\<lparr>closed := last (closed ?s # map snd lcs), script := rest\<rparr>),
             yields := yields (threads ?w ! t) + length lcs\<rparr>],
      stdout := stdout ?w @ map (\<lambda>(l, c). the (decode l) @ [newline]) lcs\<rparr>)"
    by (rule Cons.IH) (use Cons.prems in auto)
  finally show ?case using Cons.prems(1) dl lc by simp
qed

lemma pc_update_same:
  "pc a = p \<Longrightarrow> a\<lparr>target := x, pc := p\<rparr> = a\<lparr>target := x\<rparr>"
  for a :: "'a activation_scheme"
  by (cases a) simp

lemma idle_bursts:
  assumes "t < length (threads w)" "pc (threads w ! t) = Burst 0"
    "target (threads w ! t) = Some s" "is_BinaryIO s" "exit w = Some False"
    "script s = replicate k (Returns [], False) @ rest"
  shows "join t w = join t
    (w\<lparr>threads := (threads w)[t := (threads w ! t)
          \<lparr>target := Some (s\<lparr>closed := (if k = 0 then closed s else False),
                                script := rest\<rparr>)\<rparr>]\<rparr>)"
  using assms
proof (induction k arbitrary: w s)
  case 0
  then have "s\<lparr>closed := closed s, script := rest\<rparr> = s" by simp
  moreover have "(threads w ! t)\<lparr>target := Some s\<rparr> = threads w ! t"
    using "0.prems"(3) by (metis activation.surjective activation.update_convs(1))
  ultimately show ?case by simp
next
  case (Suc k)
  let ?s = "s\<lparr>closed := False, script := replicate k (Returns [], False) @ rest\<rparr>"
  let ?w1 = "w\<lparr>threads := (threads w)[t := (threads w ! t)
    \<lparr>target := Some ?s, pc := LoopHead\<rparr>]\<rparr>"
  let ?w2 = "w\<lparr>threads := (threads w)[t := (threads w ! t)
    \<lparr>target := Some ?s, pc := Burst 0\<rparr>]\<rparr>"
  have "is_alive w t" using Suc.prems by (simp add: is_alive_def running_def)
  then have "join t w = join t (worker_step t w)" by (rule join_unfold)
  also have "worker_step t w = ?w1"
    using step_eof [OF Suc.prems(1-3), of ?s] Suc.prems(6) by simp
  also have "join t ?w1 = join t (worker_step t ?w1)"
    by (rule join_unfold) (use Suc.prems(1) in \<open>simp add: is_alive_def running_def\<close>)
  also have "worker_step t ?w1 = ?w2"
    using Suc.prems by (simp add: step_loophead loop_condition_def)
  also have "join t ?w2 = join t
    (?w2\<lparr>threads := (threads ?w2)[t := (threads ?w2 ! t)
          \<lparr>target := Some (?s\<lparr>closed := (if k = 0 then closed ?s else False),
                                script := rest\<rparr>)\<rparr>]\<rparr>)"
    by (rule Suc.IH) (use Suc.prems in simp_all)
  finally show ?case using Suc.prems(1,2) by (simp add: pc_update_same)
qed

lemma join_closing_read:
  assumes "t < length (threads w)" "pc (threads w ! t) = Burst n"
    "target (threads w ! t) = Some s" "script s = (Returns [], True) # rest"
  shows "join t w =
    Some (w\<lparr>threads := (threads w)[t := (threads w ! t)
               \<lparr>target := Some (s\<lparr>closed := True, script := rest\<rparr>), pc := Done\<rparr>],
            stdout := stdout w @ (if verbose w then [messages Finished @ [newline]] else [])\<rparr>)"
proof -
  let ?w1 = "w\<lparr>threads := (threads w)[t := (threads w ! t)
    \<lparr>target := Some (s\<lparr>closed := True, script := rest\<rparr>), pc := LoopHead\<rparr>]\<rparr>"
  have "is_alive w t" using assms(1,2) by (simp add: is_alive_def running_def)
  then have "join t w = join t (worker_step t w)" by (rule join_unfold)
  also have "worker_step t w = ?w1"
    using step_eof [OF assms(1-3), of "s\<lparr>closed := True, script := rest\<rparr>"] assms(4) by simp
  also have "join t ?w1 =
      Some ((cleanup ?w1)\<lparr>threads := (threads ?w1)[t := (threads ?w1 ! t)\<lparr>pc := Done\<rparr>]\<rparr>)"
    by (rule join_loophead_exit)
      (use assms(1) in \<open>simp_all add: loop_condition_def split: option.splits\<close>)
  finally show ?thesis using assms(1) by (simp add: print_defs)
qed

lemma join_raising_read:
  assumes "t < length (threads w)" "pc (threads w ! t) = Burst n"
    "target (threads w ! t) = Some s" "script s = (Raises_ValueError, c) # rest"
  shows "join t w =
    Some (w\<lparr>threads := (threads w)[t := (threads w ! t)
               \<lparr>target := Some (s\<lparr>closed := c, script := rest\<rparr>), pc := Done\<rparr>],
            stdout := stdout w @
              (if verbose w
               then [messages Streamer_closed_early @ [newline], messages Finished @ [newline]]
               else [])\<rparr>)"
proof -
  let ?w1 = "(print Streamer_closed_early w)\<lparr>threads := (threads w)[t := (threads w ! t)
    \<lparr>target := Some (s\<lparr>closed := c, script := rest\<rparr>), pc := Cleanup\<rparr>]\<rparr>"
  have "is_alive w t" using assms(1,2) by (simp add: is_alive_def running_def)
  then have "join t w = join t (worker_step t w)" by (rule join_unfold)
  also have "worker_step t w = ?w1"
    using step_ValueError [OF assms(1-3), of "s\<lparr>closed := c, script := rest\<rparr>"] assms(4)
    by simp
  also have "join t ?w1 =
      Some ((cleanup ?w1)\<lparr>threads := (threads ?w1)[t := (threads ?w1 ! t)\<lparr>pc := Done\<rparr>]\<rparr>)"
    by (rule join_cleanup) (use assms(1) in \<open>simp_all add: print_defs\<close>)
  finally show ?thesis using assms(1) by (simp add: print_defs)
qed

lemma join_delivers:
  assumes t: "t < length (threads w)" and pc: "pc (threads w ! t) = Entry"
    and tg: "target (threads w ! t) = Some s"
    and ot: "output_thread w \<noteq> None" and ex: "exit w = Some False"
    and s: "is_BinaryIO s" "\<not> closed s"
      "script s = map (\<lambda>(l, c). (Returns l, c)) lcs @
         replicate k (Returns [], False) @ fin # rest"
    and fin: "fin = (Returns [], True) \<or> fst fin = Raises_ValueError"
    and ls: "\<forall>(l, c)\<in>set lcs. l \<noteq> [] \<and> (\<exists>u. decode l = Some u \<and> sink_accepts w u)"
  shows "\<exists>w'. join t w = Some w' \<and>
    stdout w' = stdout w @ map (\<lambda>(l, c). the (decode l) @ [newline]) lcs @
      (if verbose w
       then (if fst fin = Raises_ValueError
             then [messages Streamer_closed_early @ [newline]] else []) @
            [messages Finished @ [newline]]
       else [])"
proof -
  let ?th = "threads w ! t"
  let ?out = "stdout w @ map (\<lambda>(l, c). the (decode l) @ [newline]) lcs"
  let ?wa = "w\<lparr>threads := (threads w)[t := ?th\<lparr>pc := LoopHead\<rparr>]\<rparr>"
  let ?wb = "w\<lparr>threads := (threads w)[t := ?th\<lparr>pc := Burst 0\<rparr>]\<rparr>"
  let ?sc = "s\<lparr>closed := last (closed s # map snd lcs),
                script := replicate k (Returns [], False) @ fin # rest\<rparr>"
  let ?wc = "w\<lparr>threads := (threads w)[t := ?th
            \<lparr>target := Some ?sc, pc := Burst 0, yields := yields ?th + length lcs\<rparr>],
          stdout := ?out\<rparr>"
  let ?sd = "s\<lparr>closed := (if k = 0 then last (closed s # map snd lcs) else False),
                script := fin # rest\<rparr>"
  let ?wd = "w\<lparr>threads := (threads w)[t := ?th
            \<lparr>target := Some ?sd, pc := Burst 0, yields := yields ?th + length lcs\<rparr>],
          stdout := ?out\<rparr>"
  have "is_alive w t" using t pc by (simp add: is_alive_def running_def)
  then have "join t w = join t (worker_step t w)" by (rule join_unfold)
  also have "worker_step t w = ?wa" using t pc ot by (simp add: step_entry)
  also have "join t ?wa = join t (worker_step t ?wa)"
    by (rule join_unfold) (use t in \<open>simp add: is_alive_def running_def\<close>)
  also have "worker_step t ?wa = ?wb"
    using t tg ex s by (simp add: step_loophead loop_condition_def)
  also have "join t ?wb = join t ?wc"
    using burst_lines [of t ?wb s lcs "replicate k (Returns [], False) @ fin # rest"]
      t tg s ls by simp
  also have "\<dots> = join t ?wd"
    using idle_bursts [of t ?wc ?sc k "fin # rest"] t ex s(1) by simp
  finally have j: "join t w = join t ?wd" .
  have d: "t < length (threads ?wd)" "pc (threads ?wd ! t) = Burst 0"
    "target (threads ?wd ! t) = Some ?sd"
    using t by simp_all
  from fin show ?thesis
  proof
    assume f: "fin = (Returns [], True)"
    from join_closing_read [OF d, of rest] f j t show ?thesis by simp
  next
    assume f: "fst fin = Raises_ValueError"
    then obtain c where "fin = (Raises_ValueError, c)" by (cases fin) auto
    with join_raising_read [OF d, of c rest] j t show ?thesis by simp
  qed
qed

section \<open>The result of \<open>is_monitoring\<close>\<close>

text \<open>
  C9, as stated, at a fresh instance: \<open>is_monitoring()\<close> evaluates
  \<open>self._output_thread and ...\<close> with \<open>_output_thread\<close> being \<open>None\<close>, and an
  \<open>and\<close> whose left operand is falsy returns that operand. The result is \<open>None\<close>,
  not the boolean \<open>False\<close>.
\<close>

theorem is_monitoring_unstarted_counterexample:
  "Streamer utf_8_codec None False =
     Inr \<lparr>stdout_encodes = utf_8_codec, output_thread = None, exit = None, verbose = False, threads = [], stdout = []\<rparr>
   \<and> is_monitoring
        \<lparr>stdout_encodes = utf_8_codec, output_thread = None, exit = None, verbose = False, threads = [], stdout = []\<rparr>
       = Inr PNone
   \<and> is_monitoring
        \<lparr>stdout_encodes = utf_8_codec, output_thread = None, exit = None, verbose = False, threads = [], stdout = []\<rparr>
       \<noteq> Inr (PBool False)"
  by (simp add: Streamer_def is_monitoring_def)

text \<open>
  C9, amended: \<open>is_monitoring()\<close> returns \<open>True\<close> if and only if a worker was created,
  that worker is executing and the exit signal is not set. It reads the instance and
  changes nothing (the function returns a value and no state). Before any worker was
  created it returns \<open>None\<close>, which is falsy; once the worker has ended or the exit
  signal is set it returns \<open>False\<close>.
\<close>

theorem is_monitoring_result:
  "(is_monitoring w = Inr (PBool True) \<longleftrightarrow>
      (\<exists>t. output_thread w = Some t \<and> is_alive w t \<and> exit w = Some False))
   \<and> (output_thread w = None \<longrightarrow> is_monitoring w = Inr PNone)
   \<and> (\<forall>t. output_thread w = Some t \<and> (\<not> is_alive w t \<or> exit w = Some True)
          \<longrightarrow> is_monitoring w = Inr (PBool False))"
  by (auto simp: is_monitoring_def split: option.splits)

theorem is_monitoring_result_witness:
  "is_monitoring
     \<lparr>stdout_encodes = utf_8_codec, output_thread = None, exit = None, verbose = False, threads = [], stdout = []\<rparr>
     = Inr PNone
   \<and> is_monitoring
       \<lparr>stdout_encodes = utf_8_codec, output_thread = Some 0, exit = Some False, verbose = False,
          threads = [\<lparr>target = None, pc = Done, yields = 0, daemon = True\<rparr>], stdout = []\<rparr>
     = Inr (PBool False)
   \<and> is_monitoring
       \<lparr>stdout_encodes = utf_8_codec, output_thread = Some 0, exit = Some False, verbose = False,
          threads = [\<lparr>target = None, pc = LoopHead, yields = 0, daemon = True\<rparr>],
          stdout = []\<rparr>
     = Inr (PBool True)"
  using
    is_monitoring_result [of
      "\<lparr>stdout_encodes = utf_8_codec, output_thread = None, exit = None, verbose = False, threads = [], stdout = []\<rparr>"]
    is_monitoring_result [of
      "\<lparr>stdout_encodes = utf_8_codec, output_thread = Some 0, exit = Some False, verbose = False,
         threads = [\<lparr>target = None, pc = Done, yields = 0, daemon = True\<rparr>], stdout = []\<rparr>"]
    is_monitoring_result [of
      "\<lparr>stdout_encodes = utf_8_codec, output_thread = Some 0, exit = Some False, verbose = False,
         threads = [\<lparr>target = None, pc = LoopHead, yields = 0, daemon = True\<rparr>],
         stdout = []\<rparr>"]
  by (simp add: is_alive_def running_def)

section \<open>Delivery of the lines of a stream\<close>

text \<open>
  C1, as stated, fails on streams that each yield non-empty chunks and then \<open>b""\<close>. A
  stream that is not an instance of \<open>BinaryIO\<close> is never read: nothing is printed. A
  chunk that is not valid UTF-8 makes \<open>decode\<close> raise a \<open>ValueError\<close>, which the
  \<open>except\<close> clause takes for a closed stream: nothing is printed. A chunk that is
  valid UTF-8 (the bytes C3 A9, the letter e with an acute accent) but which the
  encoding of the standard output does not represent makes \<open>print\<close> raise a
  \<open>ValueError\<close>, with the same end: nothing is printed. And the empty read ends a
  burst, not the worker: a stream that is still open afterwards is read again, and
  the chunks it yields then are printed too.
\<close>

theorem monitor_delivers_lines_counterexample:
  "(case Streamer utf_8_codec (Some \<lparr>is_BinaryIO = False, closed = False,
                          script = [(Returns [97], False), (Returns [], True)]\<rparr>) False of
      Inr w \<Rightarrow> map_option stdout (join 0 w) | Inl e \<Rightarrow> None) = Some []
   \<and> (case Streamer utf_8_codec (Some \<lparr>is_BinaryIO = True, closed = False,
                          script = [(Returns [255], False), (Returns [], True)]\<rparr>) False of
      Inr w \<Rightarrow> map_option stdout (join 0 w) | Inl e \<Rightarrow> None) = Some []
   \<and> decode [0xC3, 0xA9] = Some [233]
   \<and> (case Streamer ascii_codec (Some \<lparr>is_BinaryIO = True, closed = False,
                          script = [(Returns [0xC3, 0xA9], False), (Returns [], True)]\<rparr>) False of
      Inr w \<Rightarrow> map_option stdout (join 0 w) | Inl e \<Rightarrow> None) = Some []
   \<and> (case Streamer utf_8_codec (Some \<lparr>is_BinaryIO = True, closed = False,
                          script = [(Returns [97], False), (Returns [], False),
                                    (Returns [98], False), (Returns [], True)]\<rparr>) False of
      Inr w \<Rightarrow> map_option stdout (join 0 w) | Inl e \<Rightarrow> None) = Some [[97, 10], [98, 10]]"
  by (simp add: run_defs newline_def between_def cont_def low6_def ascii_codec_def)

text \<open>
  C1, amended: let the instance not be monitoring, and let the stream be an instance of
  \<open>BinaryIO\<close>, open when monitoring starts, yielding N non-empty chunks that are valid
  UTF-8 and that the standard output can encode (whatever \<open>closed\<close> is between them),
  and after them nothing but empty reads: the end-of-stream marker, repeated for as
  long as the stream stays open, until an empty read after which the stream reports
  closed, or a read that raises \<open>ValueError\<close>. Then \<open>monitor\<close> starts a worker, and
  that worker, left to run, ends after printing exactly the N lines, decoded, each
  followed by a newline, in the order read, followed when verbose by the diagnostics
  of its end ("The stream closed while being read from" after a \<open>ValueError\<close>, then
  "done"); after that \<open>is_monitoring()\<close> is \<open>False\<close>.
\<close>

theorem monitor_delivers_lines:
  assumes "is_monitoring w = Inr v" "\<not> truthy v"
    and "is_BinaryIO s" "\<not> closed s"
    and "length cs = length ls"
    and "script s = zip (map Returns ls) cs @ replicate k (Returns [], False) @ fin # rest"
    and "fin = (Returns [], True) \<or> fst fin = Raises_ValueError"
    and "\<forall>l\<in>set ls. l \<noteq> [] \<and> (\<exists>u. decode l = Some u \<and> sink_accepts w u)"
  shows "\<exists>w1 w'. monitor (Some s) w = Inr w1 \<and> is_monitoring w1 = Inr (PBool True) \<and>
    join (length (threads w)) w1 = Some w' \<and>
    stdout w' = stdout w @ map (\<lambda>l. the (decode l) @ [newline]) ls @
      (if verbose w
       then (if fst fin = Raises_ValueError
             then [messages Streamer_closed_early @ [newline]] else []) @
            [messages Finished @ [newline]]
       else []) \<and>
    is_monitoring w' = Inr (PBool False)"
proof -
  let ?t = "length (threads w)"
  let ?wa = "w\<lparr>exit := Some False, output_thread := Some ?t,
      threads := threads w @ [\<lparr>target = Some s, pc = Entry, yields = 0, daemon = True\<rparr>]\<rparr>"
  let ?lcs = "zip ls cs"
  have m: "monitor (Some s) w = Inr ?wa" using assms(1,2) by (simp add: monitor_def)
  have im: "is_monitoring ?wa = Inr (PBool True)"
    by (simp add: is_monitoring_def is_alive_def running_def)
  have sc: "script s = map (\<lambda>(l, c). (Returns l, c)) ?lcs @
         replicate k (Returns [], False) @ fin # rest"
    using assms(6) by (simp add: zip_map1)
  have ok: "\<forall>(l, c)\<in>set ?lcs. l \<noteq> [] \<and> (\<exists>u. decode l = Some u \<and> sink_accepts ?wa u)"
    using assms(8) by (auto dest: set_zip_leftD)
  have fs: "map fst ?lcs = ls" using assms(5) by simp
  have mp: "map (\<lambda>(l, c). the (decode l) @ [newline]) ?lcs =
      map (\<lambda>l. the (decode l) @ [newline]) (map fst ?lcs)"
    by (simp add: case_prod_beta comp_def)
  from join_delivers [of ?t ?wa s ?lcs k fin rest, OF _ _ _ _ _ assms(3,4) sc assms(7) ok]
  obtain w' where j: "join ?t ?wa = Some w'"
    and out: "stdout w' = stdout ?wa @ map (\<lambda>(l, c). the (decode l) @ [newline]) ?lcs @
      (if verbose ?wa
       then (if fst fin = Raises_ValueError
             then [messages Streamer_closed_early @ [newline]] else []) @
            [messages Finished @ [newline]]
       else [])"
    by auto
  from join_result [OF j] have "is_monitoring w' = Inr (PBool False)"
    by (simp add: is_monitoring_def)
  with m im j out mp fs show ?thesis by simp
qed

theorem monitor_delivers_lines_witness:
  "\<exists>w1 w'.
     Streamer utf_8_codec
       (Some \<lparr>is_BinaryIO = True, closed = False,
              script = [(Returns [97], False), (Returns [98], False),
                        (Returns [99], False), (Returns [100], False),
                        (Returns [], False), (Returns [], False), (Returns [], False),
                        (Returns [], True)]\<rparr>) True = Inr w1
     \<and> is_monitoring w1 = Inr (PBool True)
     \<and> join 0 w1 = Some w'
     \<and> stdout w' = [str ''a'' @ [newline], str ''b'' @ [newline], str ''c'' @ [newline],
                     str ''d'' @ [newline], str ''Streamer :: done'' @ [newline]]
     \<and> is_monitoring w' = Inr (PBool False)"
proof -
  let ?wa = "\<lparr>stdout_encodes = utf_8_codec, output_thread = None, exit = None, verbose = True,
         threads = [], stdout = []\<rparr>"
  let ?sa = "\<lparr>is_BinaryIO = True, closed = False,
         script = [(Returns [97], False), (Returns [98], False),
                   (Returns [99], False), (Returns [100], False),
                   (Returns [], False), (Returns [], False), (Returns [], False),
                   (Returns [], True)]\<rparr>"
  have a: "is_monitoring ?wa = Inr PNone" "\<not> truthy PNone" "is_BinaryIO ?sa" "\<not> closed ?sa"
    by (simp_all add: is_monitoring_def)
  have b: "length [False, False, False, False] = length [[97], [98], [99], [100::byte]]"
    by simp
  have c: "script ?sa = zip (map Returns [[97], [98], [99], [100]]) [False, False, False, False] @
      replicate 3 (Returns [], False) @ (Returns [], True) # []"
    by (simp add: numeral_3_eq_3)
  have d: "(Returns [], True) = (Returns [], True) \<or> fst (Returns [], True) = Raises_ValueError"
    by simp
  have e: "\<forall>l\<in>set [[97], [98], [99], [100::byte]].
      l \<noteq> [] \<and> (\<exists>u. decode l = Some u \<and> sink_accepts ?wa u)"
    by simp
  from monitor_delivers_lines [OF a b c d e] show ?thesis
    by (simp add: Streamer_def str_def)
qed

section \<open>A stream that is not an instance of \<open>BinaryIO\<close>\<close>

text \<open>
  C10: the \<open>while\<close> condition holds only for an instance of \<open>typing.BinaryIO\<close>. For
  a stream that is not one, whatever its \<open>readline\<close> and \<open>closed\<close> would give, the
  condition fails at each evaluation, and a worker started on it by \<open>monitor\<close> ends
  without a single \<open>readline\<close> call (the stream is as it was) and without printing a
  line of content: it prints the "done" diagnostic when verbose, and nothing otherwise.
\<close>

theorem non_BinaryIO_is_not_read:
  assumes "is_monitoring w = Inr v" "\<not> truthy v" "\<not> is_BinaryIO s"
  shows "(\<forall>a w0. target a = Some s \<and> pc a = LoopHead \<longrightarrow>
            flush_step a w0 = (a\<lparr>pc := Cleanup\<rparr>, w0))
    \<and> (\<exists>w1. monitor (Some s) w = Inr w1 \<and>
          threads w1 = threads w @ [\<lparr>target = Some s, pc = Entry, yields = 0, daemon = True\<rparr>] \<and>
          join (length (threads w)) w1 =
            Some (w1\<lparr>threads := threads w @
                       [\<lparr>target = Some s, pc = Done, yields = 0, daemon = True\<rparr>],
                     stdout := stdout w @
                       (if verbose w then [messages Finished @ [newline]] else [])\<rparr>))"
proof -
  let ?t = "length (threads w)"
  let ?w1 = "w\<lparr>exit := Some False, output_thread := Some ?t,
      threads := threads w @ [\<lparr>target = Some s, pc = Entry, yields = 0, daemon = True\<rparr>]\<rparr>"
  let ?w2 = "?w1\<lparr>threads := (threads ?w1)[?t := (threads ?w1 ! ?t)\<lparr>pc := LoopHead\<rparr>]\<rparr>"
  have m: "monitor (Some s) w = Inr ?w1" using assms(1,2) by (simp add: monitor_def)
  have "is_alive ?w1 ?t" by (simp add: is_alive_def running_def)
  then have "join ?t ?w1 = join ?t (worker_step ?t ?w1)" by (rule join_unfold)
  also have "worker_step ?t ?w1 = ?w2" by (rule step_entry) simp_all
  also have "join ?t ?w2 =
      Some ((cleanup ?w2)\<lparr>threads := (threads ?w2)[?t := (threads ?w2 ! ?t)\<lparr>pc := Done\<rparr>]\<rparr>)"
    by (rule join_loophead_exit) (use assms(3) in \<open>simp_all add: loop_condition_def\<close>)
  finally have "join ?t ?w1 =
      Some (?w1\<lparr>threads := threads w @
                       [\<lparr>target = Some s, pc = Done, yields = 0, daemon = True\<rparr>],
                     stdout := stdout w @
                       (if verbose w then [messages Finished @ [newline]] else [])\<rparr>)"
    by (simp add: print_defs)
  moreover have "\<forall>a w0. target a = Some s \<and> pc a = LoopHead \<longrightarrow>
            flush_step a w0 = (a\<lparr>pc := Cleanup\<rparr>, w0)"
    using assms(3) by (auto simp add: flush_step.simps loop_condition_def split: option.splits)
  ultimately show ?thesis using m by simp
qed

theorem non_BinaryIO_is_not_read_witness:
  "\<exists>w1. Streamer utf_8_codec (Some \<lparr>is_BinaryIO = False, closed = False,
                          script = [(Returns [97], False), (Returns [], True)]\<rparr>) True = Inr w1
     \<and> join 0 w1 =
         Some \<lparr>stdout_encodes = utf_8_codec, output_thread = Some 0, exit = Some False, verbose = True,
                threads = [\<lparr>target = Some \<lparr>is_BinaryIO = False, closed = False,
                                 script = [(Returns [97], False), (Returns [], True)]\<rparr>,
                            pc = Done, yields = 0, daemon = True\<rparr>],
                stdout = [str ''Streamer :: done'' @ [newline]]\<rparr>"
  using non_BinaryIO_is_not_read [of
      "\<lparr>stdout_encodes = utf_8_codec, output_thread = None, exit = None, verbose = True, threads = [], stdout = []\<rparr>"
      PNone
      "\<lparr>is_BinaryIO = False, closed = False,
         script = [(Returns [97], False), (Returns [], True)]\<rparr>"]
  by (auto simp add: Streamer_def is_monitoring_def monitor_def)

section \<open>A read that raises \<open>ValueError\<close>\<close>

text \<open>
  C4: when \<open>readline\<close> raises \<open>ValueError\<close> during a burst, the worker leaves the
  loop, logs "The stream closed while being read from" once and then "done" (both
  through the instance's \<open>print\<close>, which writes when verbose and is silent otherwise)
  and ends at \<open>Done\<close>, not at \<open>Crashed\<close>: no exception leaves \<open>__flush\<close>.
\<close>

theorem ValueError_ends_worker:
  assumes "t < length (threads w)" "pc (threads w ! t) = Burst n"
    "target (threads w ! t) = Some s" "readline s = (Raises_ValueError, s')"
  shows "join t w =
    Some (w\<lparr>threads := (threads w)[t := (threads w ! t)\<lparr>target := Some s', pc := Done\<rparr>],
            stdout := stdout w @
              (if verbose w
               then [messages Streamer_closed_early @ [newline], messages Finished @ [newline]]
               else [])\<rparr>)"
proof -
  let ?w1 = "(print Streamer_closed_early w)\<lparr>threads := (threads w)[t := (threads w ! t)
    \<lparr>target := Some s', pc := Cleanup\<rparr>]\<rparr>"
  have "is_alive w t" using assms(1,2) by (simp add: is_alive_def running_def)
  then have "join t w = join t (worker_step t w)" by (rule join_unfold)
  also have "worker_step t w = ?w1" using assms by (rule step_ValueError)
  also have "join t ?w1 =
      Some ((cleanup ?w1)\<lparr>threads := (threads ?w1)[t := (threads ?w1 ! t)\<lparr>pc := Done\<rparr>]\<rparr>)"
    by (rule join_cleanup) (use assms(1) in \<open>simp_all add: print_defs\<close>)
  finally show ?thesis using assms(1) by (simp add: print_defs)
qed

theorem ValueError_ends_worker_witness:
  "join 0 \<lparr>stdout_encodes = utf_8_codec, output_thread = Some 0, exit = Some False, verbose = True,
            threads = [\<lparr>target = Some \<lparr>is_BinaryIO = True, closed = False,
                                        script = [(Raises_ValueError, False)]\<rparr>,
                        pc = Burst 0, yields = 0, daemon = True\<rparr>],
            stdout = []\<rparr> =
   Some \<lparr>stdout_encodes = utf_8_codec, output_thread = Some 0, exit = Some False, verbose = True,
          threads = [\<lparr>target = Some \<lparr>is_BinaryIO = True, closed = False, script = []\<rparr>,
                      pc = Done, yields = 0, daemon = True\<rparr>],
          stdout = [str ''Streamer :: The stream closed while being read from'' @ [newline],
                    str ''Streamer :: done'' @ [newline]]\<rparr>"
  using ValueError_ends_worker [of 0
      "\<lparr>stdout_encodes = utf_8_codec, output_thread = Some 0, exit = Some False, verbose = True,
            threads = [\<lparr>target = Some \<lparr>is_BinaryIO = True, closed = False,
                                        script = [(Raises_ValueError, False)]\<rparr>,
                        pc = Burst 0, yields = 0, daemon = True\<rparr>],
            stdout = []\<rparr>" 0
      "\<lparr>is_BinaryIO = True, closed = False, script = [(Raises_ValueError, False)]\<rparr>"
      "\<lparr>is_BinaryIO = True, closed = False, script = []\<rparr>"]
  by simp

section \<open>The end-of-stream marker\<close>

text \<open>
  C5, as stated, at a stream that returns \<open>b""\<close> and stays open, with the exit signal
  unset: after three steps the worker has read the marker and is back at the head of
  the \<open>while\<close> loop, whose condition still holds, and \<open>join\<close> on it never returns.
  The worker has not ended and "done" is never logged.
\<close>

theorem eof_does_not_end_worker_counterexample:
  "Streamer utf_8_codec (Some \<lparr>is_BinaryIO = True, closed = False, script = [(Returns [], False)]\<rparr>) True =
     Inr \<lparr>stdout_encodes = utf_8_codec, output_thread = Some 0, exit = Some False, verbose = True,
           threads = [\<lparr>target = Some \<lparr>is_BinaryIO = True, closed = False,
                                       script = [(Returns [], False)]\<rparr>,
                       pc = Entry, yields = 0, daemon = True\<rparr>],
           stdout = []\<rparr>
   \<and> (worker_step 0 ^^ 3)
        \<lparr>stdout_encodes = utf_8_codec, output_thread = Some 0, exit = Some False, verbose = True,
           threads = [\<lparr>target = Some \<lparr>is_BinaryIO = True, closed = False,
                                       script = [(Returns [], False)]\<rparr>,
                       pc = Entry, yields = 0, daemon = True\<rparr>],
           stdout = []\<rparr> =
       \<lparr>stdout_encodes = utf_8_codec, output_thread = Some 0, exit = Some False, verbose = True,
           threads = [\<lparr>target = Some \<lparr>is_BinaryIO = True, closed = False, script = []\<rparr>,
                       pc = LoopHead, yields = 0, daemon = True\<rparr>],
           stdout = []\<rparr>
   \<and> join 0
        \<lparr>stdout_encodes = utf_8_codec, output_thread = Some 0, exit = Some False, verbose = True,
           threads = [\<lparr>target = Some \<lparr>is_BinaryIO = True, closed = False,
                                       script = [(Returns [], False)]\<rparr>,
                       pc = Entry, yields = 0, daemon = True\<rparr>],
           stdout = []\<rparr> = None"
proof -
  let ?sa = "\<lparr>is_BinaryIO = True, closed = False, script = [(Returns [], False)]\<rparr>"
  let ?sb = "\<lparr>is_BinaryIO = True, closed = False, script = []\<rparr>"
  let ?W = "\<lambda>s p. \<lparr>stdout_encodes = utf_8_codec, output_thread = Some 0, exit = Some False, verbose = True,
           threads = [\<lparr>target = Some s, pc = p, yields = 0, daemon = True\<rparr>],
           stdout = []\<rparr>"
  let ?S = "{?W ?sa Entry, ?W ?sa LoopHead, ?W ?sa (Burst 0), ?W ?sb LoopHead, ?W ?sb (Burst 0)}"
  have step: "worker_step 0 (?W ?sa Entry) = ?W ?sa LoopHead"
    "worker_step 0 (?W ?sa LoopHead) = ?W ?sa (Burst 0)"
    "worker_step 0 (?W ?sa (Burst 0)) = ?W ?sb LoopHead"
    "worker_step 0 (?W ?sb LoopHead) = ?W ?sb (Burst 0)"
    "worker_step 0 (?W ?sb (Burst 0)) = ?W ?sb LoopHead"
    by (simp_all add: worker_step_def flush_step.simps loop_condition_def)
  have closed: "worker_step 0 w \<in> ?S" if "w \<in> ?S" for w
    using that step by auto
  have alive: "is_alive w 0" if "w \<in> ?S" for w
    using that by (auto simp: is_alive_def running_def)
  have never: "w \<notin> ?S \<or> t \<noteq> 0" if "join t w = Some w'" for t w w'
    using that
  proof (induction t w w' rule: join.raw_induct [rotated 1, consumes 1])
    case (1 f t w w')
    show ?case
    proof (rule ccontr)
      assume "\<not> (w \<notin> ?S \<or> t \<noteq> 0)"
      then have w: "w \<in> ?S" and t: "t = 0" by blast+
      from 1(2) alive [OF w] t have "f 0 (worker_step 0 w) = Some w'" by simp
      from 1(1) [OF this] closed [OF w] show False by blast
    qed
  qed
  have "join 0 (?W ?sa Entry) = None"
  proof (cases "join 0 (?W ?sa Entry)")
    case (Some w')
    from never [OF this] show ?thesis by simp
  qed simp
  moreover have "(worker_step 0 ^^ 3) (?W ?sa Entry) = ?W ?sb LoopHead"
    by (simp add: numeral_3_eq_3 step)
  moreover have "Streamer utf_8_codec (Some ?sa) True = Inr (?W ?sa Entry)"
    by (simp add: Streamer_def monitor_def is_monitoring_def)
  ultimately show ?thesis by simp
qed

text \<open>
  C5, amended: an empty read ends the burst and takes the worker back to the \<open>while\<close>
  condition, without printing. If the condition holds then (exit signal unset, stream
  an open instance of \<open>BinaryIO\<close>) the worker starts another burst; if it fails, the
  worker performs the cleanup (logging "done" when verbose) and ends.
\<close>

theorem eof_ends_burst:
  assumes "t < length (threads w)" "pc (threads w ! t) = Burst n"
    "target (threads w ! t) = Some s" "readline s = (Returns [], s')"
  shows "worker_step t w =
      w\<lparr>threads := (threads w)[t := (threads w ! t)\<lparr>target := Some s', pc := LoopHead\<rparr>]\<rparr>
    \<and> (loop_condition w (Some s') \<longrightarrow>
         worker_step t (worker_step t w) =
           w\<lparr>threads := (threads w)[t := (threads w ! t)\<lparr>target := Some s', pc := Burst 0\<rparr>]\<rparr>)
    \<and> (\<not> loop_condition w (Some s') \<longrightarrow>
         join t w =
           Some (w\<lparr>threads := (threads w)[t := (threads w ! t)\<lparr>target := Some s', pc := Done\<rparr>],
                   stdout := stdout w @
                     (if verbose w then [messages Finished @ [newline]] else [])\<rparr>))"
proof -
  let ?w1 = "w\<lparr>threads := (threads w)[t := (threads w ! t)\<lparr>target := Some s', pc := LoopHead\<rparr>]\<rparr>"
  have 1: "worker_step t w = ?w1" using assms by (rule step_eof)
  have 2: "worker_step t ?w1 =
      w\<lparr>threads := (threads w)[t := (threads w ! t)\<lparr>target := Some s', pc := Burst 0\<rparr>]\<rparr>"
    if "loop_condition w (Some s')"
    using that assms(1) by (simp add: step_loophead loop_condition_def)
  have 3: "join t w =
           Some (w\<lparr>threads := (threads w)[t := (threads w ! t)\<lparr>target := Some s', pc := Done\<rparr>],
                   stdout := stdout w @
                     (if verbose w then [messages Finished @ [newline]] else [])\<rparr>)"
    if nc: "\<not> loop_condition w (Some s')"
  proof -
    have "is_alive w t" using assms(1,2) by (simp add: is_alive_def running_def)
    then have "join t w = join t (worker_step t w)" by (rule join_unfold)
    also have "\<dots> = join t ?w1" by (simp only: 1)
    also have "\<dots> =
        Some ((cleanup ?w1)\<lparr>threads := (threads ?w1)[t := (threads ?w1 ! t)\<lparr>pc := Done\<rparr>]\<rparr>)"
      by (rule join_loophead_exit) (use assms(1) nc in \<open>simp_all add: loop_condition_def\<close>)
    finally show ?thesis using assms(1) by (simp add: print_defs)
  qed
  from 1 2 3 show ?thesis by simp
qed

theorem eof_ends_burst_witness:
  "join 0 \<lparr>stdout_encodes = utf_8_codec, output_thread = Some 0, exit = Some False, verbose = True,
            threads = [\<lparr>target = Some \<lparr>is_BinaryIO = True, closed = False,
                                        script = [(Returns [], True)]\<rparr>,
                        pc = Burst 0, yields = 0, daemon = True\<rparr>],
            stdout = []\<rparr> =
   Some \<lparr>stdout_encodes = utf_8_codec, output_thread = Some 0, exit = Some False, verbose = True,
          threads = [\<lparr>target = Some \<lparr>is_BinaryIO = True, closed = True, script = []\<rparr>,
                      pc = Done, yields = 0, daemon = True\<rparr>],
          stdout = [str ''Streamer :: done'' @ [newline]]\<rparr>
   \<and> (worker_step 0 ^^ 2)
       \<lparr>stdout_encodes = utf_8_codec, output_thread = Some 0, exit = Some False, verbose = True,
          threads = [\<lparr>target = Some \<lparr>is_BinaryIO = True, closed = False,
                                      script = [(Returns [], False)]\<rparr>,
                      pc = Burst 0, yields = 0, daemon = True\<rparr>],
          stdout = []\<rparr> =
     \<lparr>stdout_encodes = utf_8_codec, output_thread = Some 0, exit = Some False, verbose = True,
        threads = [\<lparr>target = Some \<lparr>is_BinaryIO = True, closed = False, script = []\<rparr>,
                    pc = Burst 0, yields = 0, daemon = True\<rparr>],
        stdout = []\<rparr>"
  using eof_ends_burst [of 0
      "\<lparr>stdout_encodes = utf_8_codec, output_thread = Some 0, exit = Some False, verbose = True,
            threads = [\<lparr>target = Some \<lparr>is_BinaryIO = True, closed = False,
                                        script = [(Returns [], True)]\<rparr>,
                        pc = Burst 0, yields = 0, daemon = True\<rparr>],
            stdout = []\<rparr>" 0
      "\<lparr>is_BinaryIO = True, closed = False, script = [(Returns [], True)]\<rparr>"
      "\<lparr>is_BinaryIO = True, closed = True, script = []\<rparr>"]
    eof_ends_burst [of 0
      "\<lparr>stdout_encodes = utf_8_codec, output_thread = Some 0, exit = Some False, verbose = True,
            threads = [\<lparr>target = Some \<lparr>is_BinaryIO = True, closed = False,
                                        script = [(Returns [], False)]\<rparr>,
                        pc = Burst 0, yields = 0, daemon = True\<rparr>],
            stdout = []\<rparr>" 0
      "\<lparr>is_BinaryIO = True, closed = False, script = [(Returns [], False)]\<rparr>"
      "\<lparr>is_BinaryIO = True, closed = False, script = []\<rparr>", THEN conjunct2, THEN conjunct1]
  by (simp add: loop_condition_def numeral_2_eq_2)

section \<open>The counter of the periodic yield\<close>

text \<open>
  C8, as stated, on the four lines of the tests: the worker ends having run
  \<open>time.sleep(0)\<close> four times, once for each line. The counter stays 0, and
  \<open>0 % 10 == 0\<close> is true.
\<close>

theorem yield_counter_counterexample:
  "(case Streamer utf_8_codec (Some \<lparr>is_BinaryIO = True, closed = False,
                     script = [(Returns [97], False), (Returns [98], False),
                               (Returns [99], False), (Returns [100], False),
                               (Returns [], True)]\<rparr>) False of
      Inr w \<Rightarrow> map_option (\<lambda>w'. (pc (threads w' ! 0), yields (threads w' ! 0))) (join 0 w)
    | Inl e \<Rightarrow> None) = Some (Done, 4)"
  by (simp add: run_defs newline_def)

text \<open>
  C8, amended: \<open>buffer_size\<close> is 0 when a burst starts and no step of the burst changes
  it; so the condition \<open>buffer_size % 10 == 0\<close> holds after every line, and each pass
  that prints a line runs \<open>time.sleep(0)\<close> once. A pass that ends the burst prints no
  line of content and does not yield.
\<close>

theorem yield_counter_stays_zero:
  assumes "flush_step a w = (a', w')"
  shows "(pc a = LoopHead \<longrightarrow> pc a' = Burst 0 \<or> pc a' = Cleanup)
    \<and> (\<forall>n. pc a = Burst n \<longrightarrow>
          pc a' = Burst n \<or> pc a' = LoopHead \<or> pc a' = Cleanup \<or> pc a' = Crashed)
    \<and> (pc a = Burst 0 \<and> pc a' = Burst 0 \<longrightarrow>
          yields a' = yields a + 1 \<and> (\<exists>u. stdout w' = stdout w @ [u @ [newline]]))
    \<and> (pc a = Burst 0 \<and> pc a' \<noteq> Burst 0 \<longrightarrow>
          yields a' = yields a \<and>
          (stdout w' = stdout w \<or>
           stdout w' = stdout w @ [messages Streamer_closed_early @ [newline]]))"
  using assms
  by (auto simp: flush_step.simps print_defs split: pc.splits option.splits read_result.splits
      prod.splits list.splits if_splits)

theorem yield_counter_stays_zero_witness:
  "flush_step \<lparr>target = Some \<lparr>is_BinaryIO = True, closed = False,
                               script = [(Returns [97], False)]\<rparr>,
               pc = Burst 0, yields = 7\<rparr>
     \<lparr>stdout_encodes = utf_8_codec, output_thread = Some 0, exit = Some False, verbose = False, threads = [], stdout = []\<rparr> =
   (\<lparr>target = Some \<lparr>is_BinaryIO = True, closed = False, script = []\<rparr>,
      pc = Burst 0, yields = 8\<rparr>,
    \<lparr>stdout_encodes = utf_8_codec, output_thread = Some 0, exit = Some False, verbose = False, threads = [],
       stdout = [[97, 10]]\<rparr>)
   \<and> yields \<lparr>target = Some \<lparr>is_BinaryIO = True, closed = False, script = []\<rparr>,
               pc = Burst 0, yields = 8\<rparr> = 7 + 1"
  using yield_counter_stays_zero [of
      "\<lparr>target = Some \<lparr>is_BinaryIO = True, closed = False,
                               script = [(Returns [97], False)]\<rparr>,
               pc = Burst 0, yields = 7\<rparr>"
      "\<lparr>stdout_encodes = utf_8_codec, output_thread = Some 0, exit = Some False, verbose = False, threads = [], stdout = []\<rparr>"
      "\<lparr>target = Some \<lparr>is_BinaryIO = True, closed = False, script = []\<rparr>,
      pc = Burst 0, yields = 8\<rparr>"
      "\<lparr>stdout_encodes = utf_8_codec, output_thread = Some 0, exit = Some False, verbose = False, threads = [],
       stdout = [[97, 10]]\<rparr>"]
  by (simp add: flush_step.simps builtin_print_def newline_def)

section \<open>Calls made out of turn\<close>

lemma flush_run_unfold:
  "running (pc a) \<Longrightarrow> flush_run a w = flush_run (fst (flush_step a w)) (snd (flush_step a w))"
  "\<not> running (pc a) \<Longrightarrow> flush_run a w = Some (a, w)"
  by (subst flush_run.simps, simp)+

lemma wf_is_monitoring:
  assumes "wf w"
  shows "\<exists>v. is_monitoring w = Inr v"
  using assms by (auto simp: wf_def is_monitoring_def split: option.splits)

lemma flush_without_thread:
  assumes "output_thread w = None"
  shows "flush so w = Some (Inr (print Finished (print Output_thread_is_none w)))"
proof -
  let ?a = "\<lparr>target = so, pc = Entry, yields = 0\<rparr>"
  let ?w1 = "print Output_thread_is_none w"
  have "flush_run ?a w = flush_run (?a\<lparr>pc := Cleanup\<rparr>) ?w1"
    using assms by (subst flush_run_unfold(1)) (simp_all add: running_def flush_step.simps)
  also have "\<dots> = flush_run (?a\<lparr>pc := Done\<rparr>) (cleanup ?w1)"
    by (subst flush_run_unfold(1)) (simp_all add: running_def flush_step.simps)
  also have "\<dots> = Some (?a\<lparr>pc := Done\<rparr>, cleanup ?w1)"
    by (rule flush_run_unfold(2)) (simp add: running_def)
  finally show ?thesis by (simp add: flush_def cleanup_def)
qed

lemma flush_without_stream:
  assumes "output_thread w \<noteq> None"
  shows "flush None w = Some (Inr (print Finished w))"
proof -
  let ?a = "\<lparr>target = None, pc = Entry, yields = 0\<rparr>"
  have "flush_run ?a w = flush_run (?a\<lparr>pc := LoopHead\<rparr>) w"
    using assms by (subst flush_run_unfold(1)) (auto simp add: running_def flush_step.simps)
  also have "\<dots> = flush_run (?a\<lparr>pc := Cleanup\<rparr>) w"
    by (subst flush_run_unfold(1))
      (simp_all add: running_def flush_step.simps loop_condition_def split: option.splits)
  also have "\<dots> = flush_run (?a\<lparr>pc := Done\<rparr>) (cleanup w)"
    by (subst flush_run_unfold(1)) (simp_all add: running_def flush_step.simps)
  also have "\<dots> = Some (?a\<lparr>pc := Done\<rparr>, cleanup w)"
    by (rule flush_run_unfold(2)) (simp add: running_def)
  finally show ?thesis by (simp add: flush_def cleanup_def)
qed

text \<open>
  C3, as stated, at a fresh verbose instance: \<open>__flush\<close> called with no worker prints
  two diagnostics, "Nothing is being monitored" and then, from \<open>_cleanup()\<close>, "done".
\<close>

theorem misuse_counterexample:
  "flush None \<lparr>stdout_encodes = utf_8_codec, output_thread = None, exit = None, verbose = True, threads = [], stdout = []\<rparr> =
     Some (Inr \<lparr>stdout_encodes = utf_8_codec, output_thread = None, exit = None, verbose = True, threads = [],
                 stdout = [messages Output_thread_is_none @ [newline],
                           messages Finished @ [newline]]\<rparr>)
   \<and> length [messages Output_thread_is_none @ [newline], messages Finished @ [newline]] = 2"
  using flush_without_thread [of
      "\<lparr>stdout_encodes = utf_8_codec, output_thread = None, exit = None, verbose = True, threads = [], stdout = []\<rparr>" None]
  by (simp add: print_defs)

text \<open>
  C3, amended: on an instance as it is between two calls, \<open>monitor(stream=None)\<close>,
  \<open>stop()\<close> while not monitoring, and \<open>__flush\<close> without a worker or without a stream
  all return normally and leave every field of the instance and every worker as they
  were; what they print, they print only when verbose. \<open>monitor\<close> and \<open>stop\<close> print
  one diagnostic; \<open>__flush\<close> without a worker prints two ("Nothing is being
  monitored", then "done"), and \<open>__flush(None)\<close> with a worker prints "done".
\<close>

theorem misuse_is_a_no_op:
  assumes "wf w"
  shows "(\<exists>m. monitor None w =
            Inr (w\<lparr>stdout := stdout w @ (if verbose w then [messages m @ [newline]] else [])\<rparr>))
    \<and> (is_monitoring w \<noteq> Inr (PBool True) \<longrightarrow>
         stop w =
           Some (Inr (w\<lparr>stdout := stdout w @
                  (if verbose w then [messages Stop_but_not_monitoring @ [newline]] else [])\<rparr>)))
    \<and> (output_thread w = None \<longrightarrow>
         flush so w =
           Some (Inr (w\<lparr>stdout := stdout w @
                  (if verbose w
                   then [messages Output_thread_is_none @ [newline],
                         messages Finished @ [newline]]
                   else [])\<rparr>)))
    \<and> (output_thread w \<noteq> None \<longrightarrow>
         flush None w =
           Some (Inr (w\<lparr>stdout := stdout w @
                  (if verbose w then [messages Finished @ [newline]] else [])\<rparr>)))"
proof -
  obtain v where v: "is_monitoring w = Inr v" using wf_is_monitoring [OF assms] by blast
  have 1: "monitor None w =
      Inr (w\<lparr>stdout := stdout w @
        (if verbose w
         then [messages (if truthy v then Already_monitoring else Stream_none) @ [newline]]
         else [])\<rparr>)"
    using v by (simp add: monitor_def print_defs)
  have 2: "stop w = Some (Inr (w\<lparr>stdout := stdout w @
                  (if verbose w then [messages Stop_but_not_monitoring @ [newline]] else [])\<rparr>))"
    if "is_monitoring w \<noteq> Inr (PBool True)"
  proof -
    from that v have "\<not> truthy v" by (cases v) auto
    with v show ?thesis by (simp add: stop_def print_defs)
  qed
  have 3: "flush so w = Some (Inr (w\<lparr>stdout := stdout w @
                  (if verbose w
                   then [messages Output_thread_is_none @ [newline],
                         messages Finished @ [newline]]
                   else [])\<rparr>))"
    if "output_thread w = None"
    using flush_without_thread [OF that, of so] by (simp add: print_defs)
  have 4: "flush None w = Some (Inr (w\<lparr>stdout := stdout w @
                  (if verbose w then [messages Finished @ [newline]] else [])\<rparr>))"
    if "output_thread w \<noteq> None"
    using flush_without_stream [OF that] by (simp add: print_defs)
  from 1 2 3 4 show ?thesis by blast
qed

theorem misuse_is_a_no_op_witness:
  "wf \<lparr>stdout_encodes = utf_8_codec, output_thread = None, exit = None, verbose = True, threads = [], stdout = []\<rparr>
   \<and> monitor None \<lparr>stdout_encodes = utf_8_codec, output_thread = None, exit = None, verbose = True, threads = [], stdout = []\<rparr> =
       Inr \<lparr>stdout_encodes = utf_8_codec, output_thread = None, exit = None, verbose = True, threads = [],
             stdout = [str ''Streamer :: The given stream to monitor is None'' @ [newline]]\<rparr>
   \<and> stop \<lparr>stdout_encodes = utf_8_codec, output_thread = None, exit = None, verbose = True, threads = [], stdout = []\<rparr> =
       Some (Inr \<lparr>stdout_encodes = utf_8_codec, output_thread = None, exit = None, verbose = True, threads = [],
             stdout = [str ''Streamer :: stop called but not monitoring'' @ [newline]]\<rparr>)"
  using misuse_is_a_no_op [of
      "\<lparr>stdout_encodes = utf_8_codec, output_thread = None, exit = None, verbose = True, threads = [], stdout = []\<rparr>" None]
  by (simp add: wf_def is_monitoring_def monitor_def print_defs)

section \<open>Monitoring again after a stop\<close>

text \<open>
  C7: on an instance whose worker has ended, or whose exit signal is set, \<open>monitor\<close>
  with a stream creates an exit signal that is unset, appends exactly one thread, a
  daemon, whose activation is bound to that stream and stands at the entry of
  \<open>__flush\<close>, makes it the handle, and returns: no line has been read (the stream is as
  given) and nothing has been printed. The instance is monitoring again.
\<close>

theorem monitor_rearms_stopped_instance:
  assumes "output_thread w = Some t" "\<not> is_alive w t \<or> exit w = Some True"
  shows "monitor (Some s) w =
      Inr (w\<lparr>exit := Some False,
             output_thread := Some (length (threads w)),
             threads := threads w @
               [\<lparr>target = Some s, pc = Entry, yields = 0, daemon = True\<rparr>]\<rparr>)
    \<and> is_monitoring
         (w\<lparr>exit := Some False,
             output_thread := Some (length (threads w)),
             threads := threads w @
               [\<lparr>target = Some s, pc = Entry, yields = 0, daemon = True\<rparr>]\<rparr>) = Inr (PBool True)"
  using assms
  by (auto simp: monitor_def is_monitoring_def is_alive_def running_def split: option.splits)

theorem monitor_rearms_stopped_instance_witness:
  "monitor (Some \<lparr>is_BinaryIO = True, closed = False, script = [(Returns [97], False)]\<rparr>)
     \<lparr>stdout_encodes = utf_8_codec, output_thread = Some 0, exit = Some True, verbose = True,
        threads = [\<lparr>target = Some \<lparr>is_BinaryIO = True, closed = True, script = []\<rparr>,
                    pc = Done, yields = 2, daemon = True\<rparr>],
        stdout = [[120, 10], [121, 10]]\<rparr> =
   Inr \<lparr>stdout_encodes = utf_8_codec, output_thread = Some 1, exit = Some False, verbose = True,
         threads = [\<lparr>target = Some \<lparr>is_BinaryIO = True, closed = True, script = []\<rparr>,
                     pc = Done, yields = 2, daemon = True\<rparr>,
                    \<lparr>target = Some \<lparr>is_BinaryIO = True, closed = False,
                                     script = [(Returns [97], False)]\<rparr>,
                     pc = Entry, yields = 0, daemon = True\<rparr>],
         stdout = [[120, 10], [121, 10]]\<rparr>"
  using monitor_rearms_stopped_instance [of
      "\<lparr>stdout_encodes = utf_8_codec, output_thread = Some 0, exit = Some True, verbose = True,
        threads = [\<lparr>target = Some \<lparr>is_BinaryIO = True, closed = True, script = []\<rparr>,
                    pc = Done, yields = 2, daemon = True\<rparr>],
        stdout = [[120, 10], [121, 10]]\<rparr>" 0
      "\<lparr>is_BinaryIO = True, closed = False, script = [(Returns [97], False)]\<rparr>"]
  by (simp add: is_alive_def running_def)

section \<open>The instance between two calls\<close>

text \<open>
  \<open>wf\<close> holds after the constructor and is kept by \<open>monitor\<close>, by \<open>stop\<close> and by every
  step of a worker; so it holds whenever the owner makes a call.
\<close>

lemma wf_index:
  "wf w \<longleftrightarrow>
     (case output_thread w of
        None \<Rightarrow> threads w = []
      | Some t \<Rightarrow> Suc t = length (threads w) \<and> (\<forall>i<t. \<not> is_alive w i) \<and>
          exit w \<noteq> None \<and> (is_alive w t \<longrightarrow> exit w = Some False))"
proof (cases "output_thread w")
  case None
  then show ?thesis by (simp add: wf_def)
next
  case (Some t)
  show ?thesis
  proof (cases "Suc t = length (threads w)")
    case True
    then have ne: "threads w \<noteq> []" by auto
    have l: "last (threads w) = threads w ! t"
      using True ne by (metis last_conv_nth diff_Suc_1)
    have b: "list_all (\<lambda>th. \<not> running (pc th)) (butlast (threads w)) \<longleftrightarrow>
        (\<forall>i<t. \<not> is_alive w i)"
      using True by (auto simp: list_all_length nth_butlast is_alive_def)
    show ?thesis using Some True l b by (simp add: wf_def is_alive_def)
  next
    case False
    with Some show ?thesis by (simp add: wf_def)
  qed
qed

lemma wf_print [simp]: "wf (print m w) = wf w"
  by (simp add: wf_def print_defs split: option.splits)

lemma is_alive_stdout [simp]: "is_alive (w\<lparr>stdout := x\<rparr>) t = is_alive w t"
  by (simp add: is_alive_def)

lemma is_alive_exit [simp]: "is_alive (w\<lparr>exit := x\<rparr>) t = is_alive w t"
  by (simp add: is_alive_def)

lemma wf_Streamer:
  assumes "Streamer enc so v = Inr w"
  shows "wf w"
  using assms
  by (cases so)
    (auto simp: Streamer_def monitor_def is_monitoring_def wf_def Let_def)

lemma wf_monitor:
  assumes "wf w" "monitor so w = Inr w'"
  shows "wf w'"
proof -
  obtain v where v: "is_monitoring w = Inr v" using wf_is_monitoring [OF assms(1)] by blast
  show ?thesis
  proof (cases "truthy v \<or> so = None")
    case True
    with assms v show ?thesis by (auto simp: monitor_def split: option.splits if_splits)
  next
    case False
    then obtain s where so: "so = Some s" and f: "\<not> truthy v" by auto
    let ?n = "\<lparr>target = Some s, pc = Entry, yields = 0, daemon = True\<rparr>"
    from assms(2) v f so have w': "w' = w\<lparr>exit := Some False,
        output_thread := Some (length (threads w)), threads := threads w @ [?n]\<rparr>"
      by (simp add: monitor_def)
    have "\<not> is_alive w i" if "i < length (threads w)" for i
    proof (cases "output_thread w")
      case None
      with assms(1) that show ?thesis by (simp add: wf_index)
    next
      case (Some t)
      with assms(1) have t: "Suc t = length (threads w)" "\<forall>i<t. \<not> is_alive w i"
        "is_alive w t \<longrightarrow> exit w = Some False" "exit w \<noteq> None"
        by (simp_all add: wf_index)
      from v f Some t(4) have "\<not> is_alive w t \<or> exit w = Some True"
        by (auto simp: is_monitoring_def split: if_splits option.splits)
      with t(3) have "\<not> is_alive w t" by auto
      with t(1,2) that show ?thesis by (cases "i = t") auto
    qed
    then have "\<forall>i<length (threads w). \<not> is_alive w' i"
      by (auto simp: w' is_alive_def nth_append)
    then show ?thesis by (simp add: wf_index w')
  qed
qed

lemma is_alive_worker_step:
  "is_alive (worker_step t w) i \<Longrightarrow> is_alive w i"
proof (cases "i = t")
  case True
  assume a: "is_alive (worker_step t w) i"
  show ?thesis
  proof (rule ccontr)
    assume "\<not> is_alive w i"
    with True have "worker_step t w = w" by (simp add: worker_step_ended)
    with a \<open>\<not> is_alive w i\<close> show False by simp
  qed
next
  case False
  assume "is_alive (worker_step t w) i"
  with False show ?thesis by (simp add: is_alive_def worker_step_frame)
qed

lemma wf_worker_step:
  assumes "wf w"
  shows "wf (worker_step t w)"
proof (cases "output_thread w")
  case None
  with assms have "threads w = []" by (simp add: wf_index)
  then have "worker_step t w = w" by (simp add: worker_step_def)
  with assms show ?thesis by simp
next
  case (Some h)
  with assms show ?thesis
    using is_alive_worker_step [of t w] by (auto simp: wf_index worker_step_frame)
qed

lemma stop_result:
  assumes "is_monitoring w = Inr (PBool True)" "stop w = Some r"
  shows "\<exists>t w'. output_thread w = Some t \<and> r = Inr w' \<and> join t (w\<lparr>exit := Some True\<rparr>) = Some w'"
  using assms by (auto simp: stop_def is_monitoring_def split: option.splits)

lemma wf_stop:
  assumes "wf w" "stop w = Some (Inr w')"
  shows "wf w'"
proof -
  obtain v where v: "is_monitoring w = Inr v" using wf_is_monitoring [OF assms(1)] by blast
  show ?thesis
  proof (cases "truthy v")
    case False
    with assms v show ?thesis by (auto simp: stop_def)
  next
    case True
    with v have m: "is_monitoring w = Inr (PBool True)" by (cases v) auto
    from stop_result [OF m assms(2)] obtain t where
      t: "output_thread w = Some t" and j: "join t (w\<lparr>exit := Some True\<rparr>) = Some w'" by auto
    note r = join_result [OF j]
    from assms(1) t have wf: "Suc t = length (threads w)" "\<forall>i<t. \<not> is_alive w i"
      by (simp_all add: wf_index)
    have "\<not> is_alive w' i" if "i < t" for i
      using that r wf by (auto simp: is_alive_def)
    with r t wf show ?thesis by (simp add: wf_index)
  qed
qed

lemma wf_apply_op:
  assumes "wf w" "apply_op x w = Some w'"
  shows "wf w'"
proof (cases x)
  case (Monitor so)
  with assms show ?thesis by (auto split: sum.splits intro: wf_monitor)
next
  case Stop
  with assms show ?thesis by (auto split: option.splits sum.splits intro: wf_stop)
next
  case (Worker t)
  with assms show ?thesis by (auto intro: wf_worker_step)
qed

lemma wf_run_ops:
  assumes "wf w0" "run_ops ops w0 = Some w"
  shows "wf w"
  using assms
  by (induction ops arbitrary: w0) (auto split: option.splits dest: wf_apply_op)

section \<open>Stopping\<close>

lemma fold_worker_step_ended:
  assumes "\<forall>i. \<not> is_alive w i"
  shows "fold worker_step ts w = w"
  using assms by (induction ts) (simp_all add: worker_step_ended)

lemma stop_joins:
  assumes "wf w" "is_monitoring w = Inr (PBool True)" "stop w = Some r"
  shows "\<exists>w'. r = Inr w' \<and> exit w' = Some True \<and> (\<forall>i. \<not> is_alive w' i) \<and>
    is_monitoring w' = Inr (PBool False) \<and> (\<forall>ts. fold worker_step ts w' = w')"
proof -
  from stop_result [OF assms(2,3)] obtain t w' where
    t: "output_thread w = Some t" and r: "r = Inr w'"
    and j: "join t (w\<lparr>exit := Some True\<rparr>) = Some w'" by auto
  note jr = join_result [OF j]
  from assms(1) t have wf: "Suc t = length (threads w)" "\<forall>i<t. \<not> is_alive w i"
    by (simp_all add: wf_index)
  have dead: "\<not> is_alive w' i" for i
  proof (cases "i < t")
    case True
    with jr wf show ?thesis by (auto simp: is_alive_def)
  next
    case False
    with jr wf show ?thesis by (cases "i = t") (auto simp: is_alive_def)
  qed
  moreover have "exit w' = Some True" using jr by simp
  moreover have "is_monitoring w' = Inr (PBool False)"
    using jr t dead by (simp add: is_monitoring_def)
  moreover have "\<forall>ts. fold worker_step ts w' = w'"
    using dead by (simp add: fold_worker_step_ended)
  ultimately show ?thesis using r by blast
qed

lemma steps_left_decreases:
  assumes "exit w = Some True" "is_alive w t"
  shows "steps_left (worker_step t w) t < steps_left w t"
  using assms
  by (auto simp: steps_left_def worker_step_def is_alive_def running_def flush_step.simps
      loop_condition_def print_defs
      split: pc.splits option.splits read_result.splits prod.splits list.splits if_splits)

lemma join_returns_after_exit:
  assumes "exit w = Some True"
  shows "\<exists>w'. join t w = Some w'"
  using assms
proof (induction "steps_left w t" arbitrary: w rule: less_induct)
  case less
  show ?case
  proof (cases "is_alive w t")
    case True
    have "exit (worker_step t w) = Some True" using less.prems by (simp add: worker_step_frame)
    from less.hyps [OF steps_left_decreases [OF less.prems True] this]
    show ?thesis using join_unfold(1) [OF True] by simp
  next
    case False
    then show ?thesis by (simp add: join_unfold)
  qed
qed

lemma stop_returns:
  assumes "wf w"
  shows "\<exists>w'. stop w = Some (Inr w')"
proof -
  obtain v where v: "is_monitoring w = Inr v" using wf_is_monitoring [OF assms] by blast
  show ?thesis
  proof (cases "truthy v")
    case False
    with v show ?thesis by (simp add: stop_def)
  next
    case True
    with v obtain t where t: "output_thread w = Some t"
      by (auto simp: is_monitoring_def split: option.splits)
    obtain w' where "join t (w\<lparr>exit := Some True\<rparr>) = Some w'"
      using join_returns_after_exit [of "w\<lparr>exit := Some True\<rparr>" t] by auto
    with v True t show ?thesis by (simp add: stop_def)
  qed
qed

text \<open>
  C2: \<open>stop()\<close> on a monitoring instance sets the exit signal and joins the worker. When
  it returns the exit signal is set, no thread of the instance is alive,
  \<open>is_monitoring()\<close> is \<open>False\<close>, and whatever steps the scheduler still grants the
  workers change nothing: no further line is printed. This holds wherever the worker
  stands when \<open>stop\<close> is called, in the middle of a burst too: the worker finishes the
  burst during the \<open>join\<close> and meets the signal at the \<open>while\<close> condition. \<open>stop\<close> does
  return here, for a script is finite and so every burst ends; on a stream whose burst
  never ended, \<open>join\<close> would wait for ever.
\<close>

theorem stop_joins_worker:
  assumes "wf w" "is_monitoring w = Inr (PBool True)"
  shows "\<exists>w'. stop w = Some (Inr w') \<and> exit w' = Some True \<and> (\<forall>i. \<not> is_alive w' i) \<and>
    is_monitoring w' = Inr (PBool False) \<and> (\<forall>ts. fold worker_step ts w' = w')"
proof -
  obtain w' where "stop w = Some (Inr w')" using stop_returns [OF assms(1)] by blast
  with stop_joins [OF assms, of "Inr w'"] show ?thesis by auto
qed

theorem stop_joins_worker_witness:
  "wf \<lparr>stdout_encodes = utf_8_codec, output_thread = Some 0, exit = Some False, verbose = True,
        threads = [\<lparr>target = Some \<lparr>is_BinaryIO = True, closed = False,
                         script = [(Returns [98], False), (Returns [], False),
                                   (Returns [99], False)]\<rparr>,
                    pc = Burst 0, yields = 1, daemon = True\<rparr>],
        stdout = [[97, 10]]\<rparr>
   \<and> stop \<lparr>stdout_encodes = utf_8_codec, output_thread = Some 0, exit = Some False, verbose = True,
        threads = [\<lparr>target = Some \<lparr>is_BinaryIO = True, closed = False,
                         script = [(Returns [98], False), (Returns [], False),
                                   (Returns [99], False)]\<rparr>,
                    pc = Burst 0, yields = 1, daemon = True\<rparr>],
        stdout = [[97, 10]]\<rparr> =
     Some (Inr \<lparr>stdout_encodes = utf_8_codec, output_thread = Some 0, exit = Some True, verbose = True,
        threads = [\<lparr>target = Some \<lparr>is_BinaryIO = True, closed = False,
                         script = [(Returns [99], False)]\<rparr>,
                    pc = Done, yields = 2, daemon = True\<rparr>],
        stdout = [[97, 10], [98, 10], str ''Streamer :: done'' @ [newline]]\<rparr>)
   \<and> is_monitoring \<lparr>stdout_encodes = utf_8_codec, output_thread = Some 0, exit = Some True, verbose = True,
        threads = [\<lparr>target = Some \<lparr>is_BinaryIO = True, closed = False,
                         script = [(Returns [99], False)]\<rparr>,
                    pc = Done, yields = 2, daemon = True\<rparr>],
        stdout = [[97, 10], [98, 10], str ''Streamer :: done'' @ [newline]]\<rparr> = Inr (PBool False)
   \<and> fold worker_step [0, 0, 0] \<lparr>stdout_encodes = utf_8_codec, output_thread = Some 0, exit = Some True, verbose = True,
        threads = [\<lparr>target = Some \<lparr>is_BinaryIO = True, closed = False,
                         script = [(Returns [99], False)]\<rparr>,
                    pc = Done, yields = 2, daemon = True\<rparr>],
        stdout = [[97, 10], [98, 10], str ''Streamer :: done'' @ [newline]]\<rparr> =
      \<lparr>stdout_encodes = utf_8_codec, output_thread = Some 0, exit = Some True, verbose = True,
        threads = [\<lparr>target = Some \<lparr>is_BinaryIO = True, closed = False,
                         script = [(Returns [99], False)]\<rparr>,
                    pc = Done, yields = 2, daemon = True\<rparr>],
        stdout = [[97, 10], [98, 10], str ''Streamer :: done'' @ [newline]]\<rparr>"
proof -
  let ?w = "\<lparr>stdout_encodes = utf_8_codec, output_thread = Some 0, exit = Some False, verbose = True,
        threads = [\<lparr>target = Some \<lparr>is_BinaryIO = True, closed = False,
                         script = [(Returns [98], False), (Returns [], False),
                                   (Returns [99], False)]\<rparr>,
                    pc = Burst 0, yields = 1, daemon = True\<rparr>],
        stdout = [[97, 10]]\<rparr>"
  let ?w' = "\<lparr>stdout_encodes = utf_8_codec, output_thread = Some 0, exit = Some True, verbose = True,
        threads = [\<lparr>target = Some \<lparr>is_BinaryIO = True, closed = False,
                         script = [(Returns [99], False)]\<rparr>,
                    pc = Done, yields = 2, daemon = True\<rparr>],
        stdout = [[97, 10], [98, 10], str ''Streamer :: done'' @ [newline]]\<rparr>"
  have a: "wf ?w" by (simp add: wf_def running_def)
  have b: "is_monitoring ?w = Inr (PBool True)"
    by (simp add: is_monitoring_def is_alive_def running_def)
  have c: "stop ?w = Some (Inr ?w')"
    by (simp add: stop_def run_defs newline_def str_def)
  from stop_joins_worker [OF a b] c
  have d: "is_monitoring ?w' = Inr (PBool False)" and e: "\<forall>ts. fold worker_step ts ?w' = ?w'"
    by simp_all
  from e have "fold worker_step [0, 0, 0] ?w' = ?w'" by (rule spec)
  with a c d show ?thesis by (simp only: simp_thms)
qed

section \<open>The worker handle\<close>

lemma handle_kept:
  assumes "apply_op x w = Some w'" "output_thread w \<noteq> None"
  shows "output_thread w' \<noteq> None"
proof (cases x)
  case (Monitor so)
  with assms show ?thesis
    by (auto simp: monitor_def print_defs split: sum.splits if_splits option.splits)
next
  case Stop
  with assms obtain r where r: "stop w = Some (Inr w')"
    by (auto split: option.splits sum.splits)
  show ?thesis
  proof (cases "is_monitoring w = Inr (PBool True)")
    case True
    from stop_result [OF True r] obtain t where
      "output_thread w = Some t" "join t (w\<lparr>exit := Some True\<rparr>) = Some w'" by auto
    with join_result [of t "w\<lparr>exit := Some True\<rparr>" w'] show ?thesis by simp
  next
    case False
    with r assms(2) show ?thesis
      by (auto simp: stop_def print_defs is_monitoring_def split: sum.splits if_splits option.splits)
  qed
next
  case (Worker t)
  with assms show ?thesis by (auto simp: worker_step_frame)
qed

lemma handle_set:
  assumes "apply_op x w = Some w'" "output_thread w = None"
  shows "output_thread w' \<noteq> None \<longleftrightarrow> (\<exists>s. x = Monitor (Some s))"
proof (cases x)
  case (Monitor so)
  with assms show ?thesis
    by (cases so) (auto simp: monitor_def is_monitoring_def print_defs)
next
  case Stop
  with assms show ?thesis
    by (auto simp: stop_def is_monitoring_def print_defs)
next
  case (Worker t)
  with assms show ?thesis by (auto simp: worker_step_frame)
qed

lemma run_ops_handle:
  assumes "run_ops ops w0 = Some w"
  shows "output_thread w \<noteq> None \<longleftrightarrow>
    output_thread w0 \<noteq> None \<or> (\<exists>s. Monitor (Some s) \<in> set ops)"
  using assms
proof (induction ops arbitrary: w0)
  case Nil
  then show ?case by simp
next
  case (Cons x xs)
  then obtain w1 where 1: "apply_op x w0 = Some w1" and 2: "run_ops xs w1 = Some w"
    by (auto split: option.splits)
  note ih = Cons.IH [OF 2]
  show ?case
  proof (cases "output_thread w0")
    case None
    from handle_set [OF 1 None] ih None show ?thesis by auto
  next
    case (Some t)
    with handle_kept [OF 1] ih show ?thesis by auto
  qed
qed

text \<open>
  C6, as stated, fails twice. After \<open>monitor(stream=None)\<close> on a fresh instance,
  \<open>monitor\<close> has been called and there is no handle. And an instance whose worker has
  ended accepts a second stream: \<open>monitor\<close> creates a second thread and makes it the
  handle.
\<close>

theorem handle_counterexample:
  "run_ops [Monitor None]
     \<lparr>stdout_encodes = utf_8_codec, output_thread = None, exit = None, verbose = False, threads = [], stdout = []\<rparr> =
     Some \<lparr>stdout_encodes = utf_8_codec, output_thread = None, exit = None, verbose = False, threads = [], stdout = []\<rparr>
   \<and> run_ops [Monitor (Some \<lparr>is_BinaryIO = True, closed = True, script = []\<rparr>),
        Worker 0, Worker 0, Worker 0,
        Monitor (Some \<lparr>is_BinaryIO = True, closed = False, script = [(Returns [97], False)]\<rparr>)]
     \<lparr>stdout_encodes = utf_8_codec, output_thread = None, exit = None, verbose = False, threads = [], stdout = []\<rparr> =
     Some \<lparr>stdout_encodes = utf_8_codec, output_thread = Some 1, exit = Some False, verbose = False,
            threads = [\<lparr>target = Some \<lparr>is_BinaryIO = True, closed = True, script = []\<rparr>,
                        pc = Done, yields = 0, daemon = True\<rparr>,
                       \<lparr>target = Some \<lparr>is_BinaryIO = True, closed = False,
                                        script = [(Returns [97], False)]\<rparr>,
                        pc = Entry, yields = 0, daemon = True\<rparr>],
            stdout = []\<rparr>"
  by (simp add: run_defs)

text \<open>
  C6, amended: at every moment of the life of an instance, a handle is present if and
  only if \<open>monitor\<close> has been called with a stream that is not \<open>None\<close> at least once, by
  the constructor or by the owner; no operation clears a handle (an accepted
  \<open>monitor\<close> replaces it by the handle of the new thread); a \<open>monitor\<close> call is
  rejected exactly while the instance is monitoring, and accepted, with a new worker
  on the given stream, whenever it is not.
\<close>

theorem handle_invariant:
  assumes "Streamer enc so v = Inr w0" "run_ops ops w0 = Some w"
  shows "(output_thread w \<noteq> None \<longleftrightarrow> so \<noteq> None \<or> (\<exists>s. Monitor (Some s) \<in> set ops))
    \<and> (\<forall>x w'. output_thread w \<noteq> None \<and> apply_op x w = Some w' \<longrightarrow> output_thread w' \<noteq> None)
    \<and> (\<forall>s. is_monitoring w = Inr (PBool True) \<longrightarrow>
          monitor (Some s) w = Inr (print Already_monitoring w))
    \<and> (\<forall>s. is_monitoring w \<noteq> Inr (PBool True) \<longrightarrow>
          monitor (Some s) w =
            Inr (w\<lparr>exit := Some False,
                   output_thread := Some (length (threads w)),
                   threads := threads w @
                     [\<lparr>target = Some s, pc = Entry, yields = 0, daemon = True\<rparr>]\<rparr>))"
proof -
  have "output_thread w0 \<noteq> None \<longleftrightarrow> so \<noteq> None"
    using assms(1)
    by (cases so) (auto simp: Streamer_def monitor_def is_monitoring_def Let_def)
  with run_ops_handle [OF assms(2)]
  have 1: "output_thread w \<noteq> None \<longleftrightarrow> so \<noteq> None \<or> (\<exists>s. Monitor (Some s) \<in> set ops)"
    by simp
  have 2: "\<forall>x w'. output_thread w \<noteq> None \<and> apply_op x w = Some w' \<longrightarrow> output_thread w' \<noteq> None"
    using handle_kept by blast
  have 3: "\<forall>s. is_monitoring w = Inr (PBool True) \<longrightarrow>
          monitor (Some s) w = Inr (print Already_monitoring w)"
    by (simp add: monitor_def)
  have "wf w" using wf_run_ops [OF wf_Streamer [OF assms(1)] assms(2)] .
  then obtain u where u: "is_monitoring w = Inr u" using wf_is_monitoring by blast
  have 4: "\<forall>s. is_monitoring w \<noteq> Inr (PBool True) \<longrightarrow>
          monitor (Some s) w =
            Inr (w\<lparr>exit := Some False,
                   output_thread := Some (length (threads w)),
                   threads := threads w @
                     [\<lparr>target = Some s, pc = Entry, yields = 0, daemon = True\<rparr>]\<rparr>)"
    using u by (cases u) (auto simp: monitor_def)
  from 1 2 3 4 show ?thesis by blast
qed

theorem handle_invariant_witness:
  "Streamer utf_8_codec None True =
     Inr \<lparr>stdout_encodes = utf_8_codec, output_thread = None, exit = None, verbose = True, threads = [], stdout = []\<rparr>
   \<and> run_ops [Monitor None, Monitor (Some \<lparr>is_BinaryIO = True, closed = False, script = []\<rparr>),
               Worker 0, Monitor (Some \<lparr>is_BinaryIO = True, closed = True, script = []\<rparr>)]
       \<lparr>stdout_encodes = utf_8_codec, output_thread = None, exit = None, verbose = True, threads = [], stdout = []\<rparr> =
     Some \<lparr>stdout_encodes = utf_8_codec, output_thread = Some 0, exit = Some False, verbose = True,
            threads = [\<lparr>target = Some \<lparr>is_BinaryIO = True, closed = False, script = []\<rparr>,
                        pc = LoopHead, yields = 0, daemon = True\<rparr>],
            stdout = [str ''Streamer :: The given stream to monitor is None'' @ [newline],
                      str ''Streamer :: Already monitoring'' @ [newline]]\<rparr>
   \<and> output_thread \<lparr>stdout_encodes = utf_8_codec, output_thread = Some 0, exit = Some False, verbose = True,
            threads = [\<lparr>target = Some \<lparr>is_BinaryIO = True, closed = False, script = []\<rparr>,
                        pc = LoopHead, yields = 0, daemon = True\<rparr>],
            stdout = [str ''Streamer :: The given stream to monitor is None'' @ [newline],
                      str ''Streamer :: Already monitoring'' @ [newline]]\<rparr> \<noteq> None"
proof -
  let ?wa = "\<lparr>stdout_encodes = utf_8_codec, output_thread = None, exit = None, verbose = True, threads = [], stdout = []\<rparr>"
  let ?os = "[Monitor None, Monitor (Some \<lparr>is_BinaryIO = True, closed = False, script = []\<rparr>),
               Worker 0, Monitor (Some \<lparr>is_BinaryIO = True, closed = True, script = []\<rparr>)]"
  let ?w = "\<lparr>stdout_encodes = utf_8_codec, output_thread = Some 0, exit = Some False, verbose = True,
            threads = [\<lparr>target = Some \<lparr>is_BinaryIO = True, closed = False, script = []\<rparr>,
                        pc = LoopHead, yields = 0, daemon = True\<rparr>],
            stdout = [str ''Streamer :: The given stream to monitor is None'' @ [newline],
                      str ''Streamer :: Already monitoring'' @ [newline]]\<rparr>"
  have a: "Streamer utf_8_codec None True = Inr ?wa" by (simp add: Streamer_def)
  have b: "run_ops ?os ?wa = Some ?w" by (simp add: run_defs str_def)
  from handle_invariant [OF a b] have "output_thread ?w \<noteq> None" by auto
  with a b show ?thesis by (simp only: simp_thms)
qed

end
